theory Spec2Isabelle
  imports Complex_Main "HOL-Library.Monad_Syntax" "HOL-Library.Sublist"
begin

section \<open>Data model\<close>

text \<open>
  The junction-shape computation of \<^verbatim>\<open>NBNodeShapeComputer.cpp\<close>. Coordinates and
  angles (\<^verbatim>\<open>SUMOReal\<close>) are modelled as \<^typ>\<open>real\<close>: the properties below concern the
  control flow, which only compares and selects such values.

  A C++ call that does not return normally (an \<^verbatim>\<open>InvalidArgument\<close> escaping from a boundary
  line computation, an index outside a vector) is the value \<open>None\<close> of the option monad.
\<close>

record Position =
  px :: real
  py :: real
  pz :: real

type_synonym PositionVector = "Position list"

record Line =
  p1 :: Position
  p2 :: Position

text \<open>Edges and nodes are referred to by pointer in the source; a pointer is a number here.\<close>

type_synonym NBEdge = nat
type_synonym node_ptr = nat

datatype LaneSpreadFunction = LANESPREAD_RIGHT | LANESPREAD_CENTER

record EdgeData =
  myGeom :: PositionVector
  myNumLanes :: nat
  myFrom :: node_ptr
  myTo :: node_ptr
  myLaneSpreadFunction :: LaneSpreadFunction

type_synonym edge_heap = "NBEdge \<Rightarrow> EdgeData"

record NBNode =
  self :: node_ptr
  myAllEdges :: "NBEdge list"
  myIncomingEdges :: "NBEdge list"
  myOutgoingEdges :: "NBEdge list"
  myPosition :: Position
  myRadius :: real

definition getGeometry :: "edge_heap \<Rightarrow> NBEdge \<Rightarrow> PositionVector" where
  "getGeometry H e = myGeom (H e)"

definition setGeometry :: "edge_heap \<Rightarrow> NBEdge \<Rightarrow> PositionVector \<Rightarrow> edge_heap" where
  "setGeometry H e g = H(e := (H e)\<lparr>myGeom := g\<rparr>)"

definition getNumLanes :: "edge_heap \<Rightarrow> NBEdge \<Rightarrow> nat" where
  "getNumLanes H e = myNumLanes (H e)"

definition hasIncoming :: "NBNode \<Rightarrow> NBEdge \<Rightarrow> bool" where
  "hasIncoming n e = (e \<in> set (myIncomingEdges n))"

definition hasOutgoing :: "NBNode \<Rightarrow> NBEdge \<Rightarrow> bool" where
  "hasOutgoing n e = (e \<in> set (myOutgoingEdges n))"

subsection \<open>The geometry kernel\<close>

text \<open>
  \<^verbatim>\<open>PositionVector\<close>, \<^verbatim>\<open>Line\<close>, \<^verbatim>\<open>Position\<close>, \<^verbatim>\<open>GeomHelper\<close>, \<^verbatim>\<open>NBEdge\<close>, \<^verbatim>\<open>NBNode\<close> and
  \<^verbatim>\<open>StdDefs.h\<close> are not among the sources. Their numeric operations and constants are
  parameters of the model, collected in one record; every function of
  \<^verbatim>\<open>NBNodeShapeComputer.cpp\<close> below takes the kernel as its first argument.
  The boundary lines may throw \<^verbatim>\<open>InvalidArgument\<close> (the source catches it in
  \<^verbatim>\<open>joinSameDirectionEdges\<close>), hence their option type.
\<close>

record kernel =
  almostSame :: "Position \<Rightarrow> Position \<Rightarrow> bool"
  distanceTo :: "Position \<Rightarrow> Position \<Rightarrow> real"
  distanceTo2D :: "Position \<Rightarrow> Position \<Rightarrow> real"
  extrapolate :: "PositionVector \<Rightarrow> real \<Rightarrow> PositionVector"
  positionAtOffset2D :: "PositionVector \<Rightarrow> real \<Rightarrow> Position"
  nearest_offset_to_point2D :: "PositionVector \<Rightarrow> Position \<Rightarrow> real"
  pv_length :: "PositionVector \<Rightarrow> real"
  intersects :: "PositionVector \<Rightarrow> PositionVector \<Rightarrow> bool"
  intersectsPP :: "PositionVector \<Rightarrow> Position \<Rightarrow> Position \<Rightarrow> bool"
  intersectsAtLengths2D :: "PositionVector \<Rightarrow> PositionVector \<Rightarrow> real list"
  intersectsAtLengths2DLine :: "PositionVector \<Rightarrow> Line \<Rightarrow> real list"
  getSubpart2D :: "PositionVector \<Rightarrow> real \<Rightarrow> real \<Rightarrow> PositionVector"
  pv_distances :: "PositionVector \<Rightarrow> PositionVector \<Rightarrow> bool \<Rightarrow> real list"
  pv_append :: "PositionVector \<Rightarrow> PositionVector \<Rightarrow> PositionVector"
  getPositionAtDistance2D :: "Line \<Rightarrow> real \<Rightarrow> Position"
  rotateAtP1 :: "Line \<Rightarrow> real \<Rightarrow> Line"
  extrapolateBy2D :: "Line \<Rightarrow> real \<Rightarrow> Line"
  move2side :: "Line \<Rightarrow> real \<Rightarrow> Line"
  line_intersects :: "Line \<Rightarrow> Line \<Rightarrow> bool"
  line_intersectsAt :: "Line \<Rightarrow> Line \<Rightarrow> Position"
  atan2DegreeAngle :: "Line \<Rightarrow> real"
  atan2PositiveAngle :: "Line \<Rightarrow> real"
  length2D :: "Line \<Rightarrow> real"
  getCCWBoundaryLine :: "EdgeData \<Rightarrow> NBNode \<Rightarrow> PositionVector option"
  getCWBoundaryLine :: "EdgeData \<Rightarrow> NBNode \<Rightarrow> PositionVector option"
  getAngleAtNode :: "EdgeData \<Rightarrow> NBNode \<Rightarrow> real"
  getTotalWidth :: "EdgeData \<Rightarrow> real"
  isTurningDirectionAt :: "edge_heap \<Rightarrow> NBEdge \<Rightarrow> NBNode \<Rightarrow> NBEdge \<Rightarrow> bool"
  isSimpleContinuation :: "edge_heap \<Rightarrow> NBNode \<Rightarrow> bool"
  computeSmoothShape ::
    "NBNode \<Rightarrow> PositionVector \<Rightarrow> PositionVector \<Rightarrow> int \<Rightarrow> bool \<Rightarrow> real \<Rightarrow> real \<Rightarrow> PositionVector"
  getMinAngleDiff :: "real \<Rightarrow> real \<Rightarrow> real"
  SUMO_const_laneWidth :: real
  SUMO_const_halfLaneAndOffset :: real
  SUMO_const_laneWidthAndOffset :: real
  POSITION_EPS :: real
  UNSPECIFIED_RADIUS :: real
  DEFAULT_RADIUS :: real
  cornerDetailOption :: int

subsection \<open>Container operations of a polyline\<close>

text \<open>
  Modelled from the spec: \<^verbatim>\<open>PositionVector\<close> (missing from the sources) is the spec's
  Polyline, "an ordered sequence of Points" with "reversal" and
  "append/prepend-without-duplicate"; \<^verbatim>\<open>Line\<close> is "a directed two-point segment". The
  operations that only index, overwrite, insert or erase points are written out on lists.
  An index outside the vector does not return.
\<close>

definition pv_at :: "PositionVector \<Rightarrow> int \<Rightarrow> Position option" where
  \<comment> \<open>\<^verbatim>\<open>operator[](int)\<close>: a negative index counts from the end.\<close>
  "pv_at v i =
     (let n = int (length v); j = (if i < 0 then n + i else i)
      in if 0 \<le> j \<and> j < n then Some (v ! nat j) else None)"

definition replaceAt :: "PositionVector \<Rightarrow> int \<Rightarrow> Position \<Rightarrow> PositionVector option" where
  "replaceAt v i by =
     (if 0 \<le> i \<and> i < int (length v) then Some (v[nat i := by]) else None)"

definition push_back_noDoublePos :: "kernel \<Rightarrow> PositionVector \<Rightarrow> Position \<Rightarrow> PositionVector" where
  "push_back_noDoublePos K v p =
     (if v = [] \<or> \<not> almostSame K p (last v) then v @ [p] else v)"

definition push_front_noDoublePos :: "kernel \<Rightarrow> PositionVector \<Rightarrow> Position \<Rightarrow> PositionVector" where
  "push_front_noDoublePos K v p =
     (if v = [] \<or> \<not> almostSame K p (hd v) then p # v else v)"

definition eraseAt :: "PositionVector \<Rightarrow> int \<Rightarrow> PositionVector option" where
  "eraseAt v i =
     (let n = int (length v); j = (if i < 0 then n + i else i)
      in if 0 \<le> j \<and> j < n then Some (take (nat j) v @ drop (Suc (nat j)) v) else None)"

definition lineAt :: "PositionVector \<Rightarrow> nat \<Rightarrow> Line option" where
  "lineAt v pos =
     (if pos + 1 < length v then Some \<lparr>p1 = v ! pos, p2 = v ! (pos + 1)\<rparr> else None)"

definition pos_add :: "Position \<Rightarrow> Position \<Rightarrow> Position" where
  "pos_add a b = \<lparr>px = px a + px b, py = py a + py b, pz = pz a + pz b\<rparr>"

definition pos_sub :: "Position \<Rightarrow> Position \<Rightarrow> Position" where
  "pos_sub a b = \<lparr>px = px a - px b, py = py a - py b, pz = pz a - pz b\<rparr>"

definition pos_mul :: "Position \<Rightarrow> real \<Rightarrow> Position" where
  "pos_mul a c = \<lparr>px = px a * c, py = py a * c, pz = pz a * c\<rparr>"

definition line_add :: "Line \<Rightarrow> Position \<Rightarrow> Line" where
  "line_add l p = \<lparr>p1 = pos_add (p1 l) p, p2 = pos_add (p2 l) p\<rparr>"

definition first_of :: "real list \<Rightarrow> real option" where
  \<comment> \<open>\<^verbatim>\<open>v[0]\<close> on a \<^verbatim>\<open>std::vector<SUMOReal>\<close>\<close>
  "first_of xs = (case xs of [] \<Rightarrow> None | x # _ \<Rightarrow> Some x)"

definition MIN2 :: "real \<Rightarrow> real \<Rightarrow> real" where
  "MIN2 a b = (if a < b then a else b)"

definition MAX2 :: "real \<Rightarrow> real \<Rightarrow> real" where
  "MAX2 a b = (if a > b then a else b)"

definition MIN3 :: "real \<Rightarrow> real \<Rightarrow> real \<Rightarrow> real" where
  "MIN3 a b c = MIN2 c (if a < b then a else b)"

definition DEG2RAD :: "real \<Rightarrow> real" where
  "DEG2RAD x = x * pi / 180"

fun maxValue :: "real list \<Rightarrow> real option" where
  "maxValue [] = None"
| "maxValue (x # xs) = Some (fold max xs x)"

fun minValue :: "real list \<Rightarrow> real option" where
  "minValue [] = None"
| "minValue (x # xs) = Some (fold min xs x)"

section \<open>Helpers of the trim engine\<close>

definition computeSameEnd ::
  "kernel \<Rightarrow> PositionVector \<Rightarrow> PositionVector \<Rightarrow> (PositionVector \<times> PositionVector) option" where
  "computeSameEnd K l1 l2 = do {
     l1_0 \<leftarrow> lineAt l1 0;
     l1_1 \<leftarrow> pv_at l1 1;
     let sub = \<lparr>p1 = getPositionAtDistance2D K l1_0 100, p2 = l1_1\<rparr>;
     let tmp = extrapolateBy2D K (rotateAtP1 K sub (pi / 2)) 100;
     l1' \<leftarrow> (if intersectsPP K l1 (p1 tmp) (p2 tmp) then do {
               offset1 \<leftarrow> first_of (intersectsAtLengths2DLine K l1 tmp);
               let tl1 = extrapolateBy2D K
                           \<lparr>p1 = getPositionAtDistance2D K l1_0 offset1, p2 = l1_1\<rparr> 100;
               replaceAt l1 0 (p1 tl1) }
             else Some l1);
     l2' \<leftarrow> (if intersectsPP K l2 (p1 tmp) (p2 tmp) then do {
               offset2 \<leftarrow> first_of (intersectsAtLengths2DLine K l2 tmp);
               l2_0 \<leftarrow> lineAt l2 0;
               l2_1 \<leftarrow> pv_at l2 1;
               let tl2 = extrapolateBy2D K
                           \<lparr>p1 = getPositionAtDistance2D K l2_0 offset2, p2 = l2_1\<rparr> 100;
               replaceAt l2 0 (p1 tl2) }
             else Some l2);
     Some (l1', l2') }"

definition replaceLastChecking ::
  "kernel \<Rightarrow> PositionVector \<Rightarrow> bool \<Rightarrow> PositionVector \<Rightarrow> nat \<Rightarrow> real \<Rightarrow> int
     \<Rightarrow> PositionVector option" where
  "replaceLastChecking K g decenter counter counterLanes counterDist laneDiff = do {
     let counter' = extrapolate K counter 100;
     let counterPos0 = positionAtOffset2D K counter' counterDist;
     let t = extrapolate K g 100;
     let p = nearest_offset_to_point2D K t counterPos0;
     let counterPos = (if p \<ge> 0 then positionAtOffset2D K t p else counterPos0);
     g_last \<leftarrow> pv_at g (-1);
     g1 \<leftarrow> (if distanceTo K g_last counterPos < SUMO_const_laneWidth K * real counterLanes
            then replaceAt g (int (length g) - 1) counterPos
            else Some (push_back_noDoublePos K g counterPos));
     if decenter then do {
       a \<leftarrow> pv_at g1 (-2);
       b \<leftarrow> pv_at g1 (-1);
       let factor = (if laneDiff mod 2 \<noteq> 0 then SUMO_const_halfLaneAndOffset K
                     else SUMO_const_laneWidthAndOffset K);
       let l = move2side K \<lparr>p1 = a, p2 = b\<rparr> (- factor);
       replaceAt g1 (int (length g1) - 1) (p2 l) }
     else Some g1 }"

definition replaceFirstChecking ::
  "kernel \<Rightarrow> PositionVector \<Rightarrow> bool \<Rightarrow> PositionVector \<Rightarrow> nat \<Rightarrow> real \<Rightarrow> int
     \<Rightarrow> PositionVector option" where
  "replaceFirstChecking K g decenter counter counterLanes counterDist laneDiff = do {
     let counter' = extrapolate K counter 100;
     let counterPos0 = positionAtOffset2D K counter' counterDist;
     let t = extrapolate K g 100;
     let p = nearest_offset_to_point2D K t counterPos0;
     let counterPos = (if p \<ge> 0 then positionAtOffset2D K t p else counterPos0);
     g_first \<leftarrow> pv_at g 0;
     g1 \<leftarrow> (if distanceTo K g_first counterPos < SUMO_const_laneWidth K * real counterLanes
            then replaceAt g 0 counterPos
            else Some (push_front_noDoublePos K g counterPos));
     if decenter then do {
       a \<leftarrow> pv_at g1 0;
       b \<leftarrow> pv_at g1 1;
       let factor = (if laneDiff mod 2 \<noteq> 0 then SUMO_const_halfLaneAndOffset K
                     else SUMO_const_laneWidthAndOffset K);
       let l = move2side K \<lparr>p1 = a, p2 = b\<rparr> (- factor);
       replaceAt g1 0 (p1 l) }
     else Some g1 }"

section \<open>The working state of one shape computation\<close>

text \<open>
  The maps that \<^verbatim>\<open>computeNodeShapeDefault\<close> declares as locals and hands to its helpers by
  reference, together with the edges (whose geometry the trim engine may overwrite).
  \<^verbatim>\<open>std::map::operator[]\<close> on a missing key yields a default value: the empty vector for
  the boundary maps, the empty edge list for \<^verbatim>\<open>same\<close>. Only for \<^verbatim>\<open>distances\<close>,
  \<^verbatim>\<open>myExtended\<close> and \<^verbatim>\<open>same\<close> does the source ask whether a key is present
  (\<^verbatim>\<open>find\<close>), so only there is the insertion of the default visible.
\<close>

record shape_state =
  edges :: edge_heap
  same :: "NBEdge \<rightharpoonup> NBEdge list"
  geomsCCW :: "NBEdge \<rightharpoonup> PositionVector"
  geomsCW :: "NBEdge \<rightharpoonup> PositionVector"
  ccwBoundary :: "NBEdge \<rightharpoonup> NBEdge"
  cwBoundary :: "NBEdge \<rightharpoonup> NBEdge"
  distances :: "NBEdge \<rightharpoonup> real"
  myExtended :: "NBEdge \<rightharpoonup> bool"

definition geom_at :: "(NBEdge \<rightharpoonup> PositionVector) \<Rightarrow> NBEdge \<Rightarrow> PositionVector" where
  "geom_at m e = (case m e of None \<Rightarrow> [] | Some g \<Rightarrow> g)"

definition same_at :: "(NBEdge \<rightharpoonup> NBEdge list) \<Rightarrow> NBEdge \<Rightarrow> NBEdge list" where
  "same_at m e = (case m e of None \<Rightarrow> [] | Some es \<Rightarrow> es)"

section \<open>Direction merger\<close>

definition badIntersection ::
  "kernel \<Rightarrow> NBNode \<Rightarrow> edge_heap \<Rightarrow> NBEdge \<Rightarrow> NBEdge \<Rightarrow> real \<Rightarrow> real \<Rightarrow> real \<Rightarrow> bool option" where
  "badIntersection K node H e1 e2 absAngleDiff distance threshold = do {
     let commonLength = MIN3 distance (pv_length K (getGeometry H e1))
                                      (pv_length K (getGeometry H e2));
     let geom1 = (if myTo (H e1) = self node then rev (getGeometry H e1) else getGeometry H e1);
     let geom2 = (if myTo (H e1) = self node then rev (getGeometry H e2) else getGeometry H e2);
     let geom1 = getSubpart2D K geom1 0 commonLength;
     let geom2 = getSubpart2D K geom2 0 commonLength;
     let ds = pv_distances K geom1 geom2 True;
     maxD \<leftarrow> maxValue ds;
     let onTop = (maxD < threshold);
     let minDistanceThreshold =
           (getTotalWidth K (H e1) + getTotalWidth K (H e2)) / 2 + POSITION_EPS K;
     minDist \<leftarrow> minValue ds;
     let parallelDistant = (minDist > minDistanceThreshold);
     a \<leftarrow> pv_at geom1 0;
     b \<leftarrow> pv_at geom2 0;
     let curvingTowards = (distanceTo2D K a b > minDistanceThreshold
                           \<and> minDist < minDistanceThreshold);
     Some (onTop \<or> curvingTowards \<or> (parallelDistant \<and> absAngleDiff < 5)) }"

text \<open>
  The boundary of an edge as \<^verbatim>\<open>joinSameDirectionEdges\<close> stores it: the first point is
  replaced by the start of the first segment extrapolated by 100.
\<close>

definition extendStart :: "kernel \<Rightarrow> PositionVector \<Rightarrow> PositionVector option" where
  "extendStart K v = do {
     tmp \<leftarrow> lineAt v 0;
     replaceAt v 0 (p1 (extrapolateBy2D K tmp 100)) }"

text \<open>
  The angle of an edge "further" along: the second segment of the boundary when the first
  is shorter than \<^verbatim>\<open>angleChangeLookahead = 35\<close> and a second segment exists.
\<close>

definition angleFurther :: "kernel \<Rightarrow> PositionVector \<Rightarrow> Line \<Rightarrow> real option" where
  "angleFurther K g l =
     (if length g > 2 \<and> length2D K l < 35
      then map_option (atan2DegreeAngle K) (lineAt g 1)
      else Some (atan2DegreeAngle K l))"

definition sideBoundary :: "kernel \<Rightarrow> NBNode \<Rightarrow> edge_heap \<Rightarrow> NBEdge \<Rightarrow> PositionVector option" where
  \<comment> \<open>\<^verbatim>\<open>g1\<close>, \<^verbatim>\<open>g2\<close> of the source\<close>
  "sideBoundary K node H e =
     (if hasIncoming node e then getCCWBoundaryLine K (H e) node
      else getCWBoundaryLine K (H e) node)"

definition recordSame :: "(NBEdge \<rightharpoonup> NBEdge list) \<Rightarrow> NBEdge \<Rightarrow> NBEdge \<Rightarrow> (NBEdge \<rightharpoonup> NBEdge list)" where
  "recordSame S i j =
     (let S1 = (if S i = None then S(i \<mapsto> []) else S);
          S2 = (if S1 j = None then S1(j \<mapsto> []) else S1);
          S3 = (if j \<notin> set (same_at S2 i) then S2(i \<mapsto> same_at S2 i @ [j]) else S2)
      in if i \<notin> set (same_at S3 j) then S3(j \<mapsto> same_at S3 j @ [i]) else S3)"

text \<open>
  The decision taken in the inner loop of \<^verbatim>\<open>joinSameDirectionEdges\<close> for the pair
  \<open>(i, j)\<close>: whether the two edges are recorded as having the same direction. \<open>l1\<close> and
  \<open>angle1further\<close> are the first segment of \<open>i\<close> and its angle further along.
\<close>

definition differentDirs :: "NBNode \<Rightarrow> edge_heap \<Rightarrow> bool \<Rightarrow> NBEdge \<Rightarrow> bool" where
  "differentDirs node H incoming j =
     ((incoming \<and> myFrom (H j) = self node) \<or> (\<not> incoming \<and> myTo (H j) = self node))"

definition sameDirection ::
  "kernel \<Rightarrow> NBNode \<Rightarrow> edge_heap \<Rightarrow> NBEdge \<Rightarrow> bool \<Rightarrow> Line \<Rightarrow> real \<Rightarrow> NBEdge \<Rightarrow> bool option" where
  "sameDirection K node H i incoming l1 angle1further j = do {
     g2 \<leftarrow> sideBoundary K node H j;
     l2 \<leftarrow> lineAt g2 0;
     angle2further \<leftarrow> angleFurther K g2 l2;
     let angleDiff = atan2DegreeAngle K l1 - atan2DegreeAngle K l2;
     let angleDiffFurther = angle1further - angle2further;
     let ambiguousGeometry = ((angleDiff > 0 \<and> angleDiffFurther < 0)
                              \<or> (angleDiff < 0 \<and> angleDiffFurther > 0));
     if \<bar>angleDiff\<bar> < 20 then
       (if differentDirs node H incoming j \<or> ambiguousGeometry then Some True
        else badIntersection K node H i j \<bar>angleDiff\<bar> 100 (SUMO_const_laneWidth K))
     else Some False }"

text \<open>
  The body of the inner loop: the boundaries of \<open>j\<close> are stored, and the pair is recorded
  in \<^verbatim>\<open>same\<close> if so decided.
\<close>

definition joinPair ::
  "kernel \<Rightarrow> NBNode \<Rightarrow> NBEdge \<Rightarrow> bool \<Rightarrow> Line \<Rightarrow> real \<Rightarrow> NBEdge \<Rightarrow> shape_state
     \<Rightarrow> shape_state option" where
  "joinPair K node i incoming l1 angle1further j st = do {
     let H = edges st;
     ccw \<leftarrow> getCCWBoundaryLine K (H j) node;
     cw \<leftarrow> getCWBoundaryLine K (H j) node;
     ccw' \<leftarrow> extendStart K ccw;
     cw' \<leftarrow> extendStart K cw;
     let st = st\<lparr>geomsCCW := (geomsCCW st)(j \<mapsto> ccw'), geomsCW := (geomsCW st)(j \<mapsto> cw')\<rparr>;
     join \<leftarrow> sameDirection K node H i incoming l1 angle1further j;
     Some (if join then st\<lparr>same := recordSame (same st) i j\<rparr> else st) }"

fun joinInner ::
  "kernel \<Rightarrow> NBNode \<Rightarrow> NBEdge \<Rightarrow> bool \<Rightarrow> Line \<Rightarrow> real \<Rightarrow> NBEdge list \<Rightarrow> shape_state
     \<Rightarrow> shape_state option" where
  "joinInner K node i incoming l1 a1 [] st = Some st"
| "joinInner K node i incoming l1 a1 (j # js) st =
     (case joinPair K node i incoming l1 a1 j st of
        None \<Rightarrow> None
      | Some st' \<Rightarrow> joinInner K node i incoming l1 a1 js st')"

text \<open>
  The part of the outer loop body before the inner loop: the boundaries of \<open>i\<close> (with the
  centerline as substitute when a boundary line throws), its first segment and its angle
  further along.
\<close>

definition joinPrepare ::
  "kernel \<Rightarrow> NBNode \<Rightarrow> NBEdge \<Rightarrow> shape_state \<Rightarrow> (bool \<times> Line \<times> real \<times> shape_state) option" where
  "joinPrepare K node i st = do {
     let H = edges st;
     let incoming = (myTo (H i) = self node);
     let ccw = (case getCCWBoundaryLine K (H i) node of None \<Rightarrow> getGeometry H i | Some b \<Rightarrow> b);
     let cw = (case getCWBoundaryLine K (H i) node of None \<Rightarrow> getGeometry H i | Some b \<Rightarrow> b);
     g1 \<leftarrow> sideBoundary K node H i;
     l1 \<leftarrow> lineAt g1 0;
     ccw' \<leftarrow> extendStart K ccw;
     cw' \<leftarrow> extendStart K cw;
     angle1further \<leftarrow> angleFurther K g1 l1;
     Some (incoming, l1, angle1further,
           st\<lparr>geomsCCW := (geomsCCW st)(i \<mapsto> ccw'), geomsCW := (geomsCW st)(i \<mapsto> cw')\<rparr>) }"

text \<open>
  The outer loop runs from \<^verbatim>\<open>begin()\<close> to \<^verbatim>\<open>end() - 1\<close>; on an empty edge vector it would
  start beyond that bound (the caller returns before for fewer than two edges).
\<close>

fun joinOuter :: "kernel \<Rightarrow> NBNode \<Rightarrow> NBEdge list \<Rightarrow> shape_state \<Rightarrow> shape_state option" where
  "joinOuter K node [] st = None"
| "joinOuter K node [i] st = Some st"
| "joinOuter K node (i # js) st =
     (case joinPrepare K node i st of
        None \<Rightarrow> None
      | Some (incoming, l1, a1, st1) \<Rightarrow>
          (case joinInner K node i incoming l1 a1 js st1 of
             None \<Rightarrow> None
           | Some st2 \<Rightarrow> joinOuter K node js st2))"

definition joinSameDirectionEdges :: "kernel \<Rightarrow> NBNode \<Rightarrow> shape_state \<Rightarrow> shape_state option" where
  "joinSameDirectionEdges K node st = joinOuter K node (myAllEdges node) st"

subsection \<open>The unique direction list\<close>

fun index_of :: "NBEdge \<Rightarrow> NBEdge list \<Rightarrow> nat option" where
  \<comment> \<open>\<^verbatim>\<open>find(newAll.begin(), newAll.end(), *j)\<close>, as a position\<close>
  "index_of x [] = None"
| "index_of x (y # ys) = (if x = y then Some 0 else map_option Suc (index_of x ys))"

definition erase :: "NBEdge list \<Rightarrow> nat \<Rightarrow> NBEdge list" where
  "erase xs k = take k xs @ drop (Suc k) xs"

text \<open>
  What happens for a partner \<open>j\<close> found in the working list: the boundary of the current
  edge on one side is taken from \<open>j\<close>, both boundaries get the same end.
\<close>

definition adoptBoundary :: "kernel \<Rightarrow> NBNode \<Rightarrow> NBEdge \<Rightarrow> NBEdge \<Rightarrow> shape_state \<Rightarrow> shape_state option" where
  "adoptBoundary K node i2 j st =
     (if hasIncoming node i2 then
        (if hasIncoming node j then Some st
         else do {
           let cw = geom_at (geomsCW st) j;
           (cw', ccw') \<leftarrow> computeSameEnd K cw (geom_at (geomsCCW st) i2);
           Some (st\<lparr>geomsCW := (geomsCW st)(i2 \<mapsto> cw'),
                    geomsCCW := (geomsCCW st)(i2 \<mapsto> ccw'),
                    cwBoundary := (cwBoundary st)(i2 \<mapsto> j)\<rparr>) })
      else
        (if hasIncoming node j then do {
           let ccw = geom_at (geomsCCW st) j;
           (cw', ccw') \<leftarrow> computeSameEnd K (geom_at (geomsCW st) i2) ccw;
           Some (st\<lparr>geomsCW := (geomsCW st)(i2 \<mapsto> cw'),
                    geomsCCW := (geomsCCW st)(i2 \<mapsto> ccw'),
                    ccwBoundary := (ccwBoundary st)(i2 \<mapsto> j)\<rparr>) }
         else Some st))"

text \<open>
  The loop over the partners \<^verbatim>\<open>other\<close> of the edge at position \<open>idx\<close>. The source keeps
  dereferencing the iterator \<^verbatim>\<open>i2\<close> after \<^verbatim>\<open>newAll.erase(k)\<close>; \<open>cur\<close> is the edge it then
  reads: erasing at or before \<open>idx\<close> moves the next element into that slot, and the slot
  of the last element keeps its content.
\<close>

fun uniqInner ::
  "kernel \<Rightarrow> NBNode \<Rightarrow> nat \<Rightarrow> NBEdge list \<Rightarrow> NBEdge \<times> NBEdge list \<times> bool \<times> shape_state
     \<Rightarrow> (NBEdge \<times> NBEdge list \<times> bool \<times> shape_state) option" where
  "uniqInner K node idx [] s = Some s"
| "uniqInner K node idx (j # js) (cur, newAll, changed, st) =
     (case index_of j newAll of
        None \<Rightarrow> uniqInner K node idx js (cur, newAll, changed, st)
      | Some k \<Rightarrow>
          (case adoptBoundary K node cur j st of
             None \<Rightarrow> None
           | Some st' \<Rightarrow>
               uniqInner K node idx js
                 (if k \<le> idx \<and> idx + 1 < length newAll then newAll ! (idx + 1) else cur,
                  erase newAll k, True, st')))"

lemma index_of_less: "index_of x xs = Some k \<Longrightarrow> k < length xs"
  by (induction xs arbitrary: k) (auto split: if_splits)

lemma index_of_None: "index_of x xs = None \<longleftrightarrow> x \<notin> set xs"
  by (induction xs) auto

lemma length_erase: "k < length xs \<Longrightarrow> length (erase xs k) < length xs"
  by (auto simp: erase_def)

lemma uniqInner_length:
  "uniqInner K node idx js (cur, xs, c, st) = Some (cur', xs', c', st')
   \<Longrightarrow> length xs' \<le> length xs \<and> (c' \<longrightarrow> c \<or> length xs' < length xs)
       \<and> (\<not> c' \<longrightarrow> \<not> c \<and> xs' = xs \<and> st' = st \<and> cur' = cur)"
proof (induction js arbitrary: cur xs c st)
  case Nil
  then show ?case by simp
next
  case (Cons j js)
  show ?case
  proof (cases "index_of j xs")
    case None
    with Cons.prems have "uniqInner K node idx js (cur, xs, c, st) = Some (cur', xs', c', st')"
      by simp
    from Cons.IH [OF this] show ?thesis .
  next
    case (Some k)
    then have k: "length (erase xs k) < length xs"
      by (simp add: index_of_less length_erase)
    from Cons.prems Some obtain st1 where
      a: "adoptBoundary K node cur j st = Some st1" and
      r: "uniqInner K node idx js
            (if k \<le> idx \<and> idx + 1 < length xs then xs ! (idx + 1) else cur,
             erase xs k, True, st1) = Some (cur', xs', c', st')"
      by (auto split: option.splits)
    from Cons.IH [OF r] k show ?thesis by auto
  qed
qed

text \<open>
  The \<^verbatim>\<open>for\<close> loop over the position \<^verbatim>\<open>i2\<close>, left as soon as an element has been erased.
\<close>

function uniqFor ::
  "kernel \<Rightarrow> NBNode \<Rightarrow> nat \<Rightarrow> NBEdge list \<times> shape_state
     \<Rightarrow> (bool \<times> NBEdge list \<times> shape_state) option" where
  "uniqFor K node idx (newAll, st) =
     (if idx < length newAll then
        (case uniqInner K node idx (same_at (same st) (newAll ! idx))
                (newAll ! idx, newAll, False, st) of
           None \<Rightarrow> None
         | Some (cur', newAll', changed, st') \<Rightarrow>
             if changed then Some (True, newAll', st')
             else uniqFor K node (idx + 1) (newAll', st'))
      else Some (False, newAll, st))"
  by pat_completeness auto
termination
proof (relation "measure (\<lambda>(K, node, idx, newAll, st). length newAll - idx)", goal_cases)
  case 1
  show ?case by simp
next
  case (2 K node idx newAll st x2 cur' y newAll' z changed st')
  then have "uniqInner K node idx (same_at (same st) (newAll ! idx))
               (newAll ! idx, newAll, False, st) = Some (cur', newAll', changed, st')"
    by simp
  from uniqInner_length [OF this] 2 show ?case by auto
qed

declare uniqFor.simps [simp del]

lemma uniqFor_length:
  "uniqFor K node idx (xs, st) = Some (c, xs', st')
   \<Longrightarrow> (c \<longrightarrow> length xs' < length xs) \<and> (\<not> c \<longrightarrow> xs' = xs \<and> st' = st)"
proof (induction K node idx "(xs, st)" arbitrary: xs st rule: uniqFor.induct)
  case (1 K node idx newAll st)
  note eq = "1.prems" [unfolded uniqFor.simps [of K node idx newAll st]]
  show ?case
  proof (cases "idx < length newAll")
    case False
    with eq show ?thesis by simp
  next
    case True
    with eq obtain cur' newAll' changed st1 where
      u: "uniqInner K node idx (same_at (same st) (newAll ! idx))
            (newAll ! idx, newAll, False, st) = Some (cur', newAll', changed, st1)"
      by (auto split: option.splits)
    note len = uniqInner_length [OF u]
    show ?thesis
    proof (cases changed)
      case True
      with eq u \<open>idx < length newAll\<close> len show ?thesis by auto
    next
      case False
      with len have e: "newAll' = newAll" "st1 = st" by auto
      from eq u \<open>idx < length newAll\<close> False
      have "uniqFor K node (idx + 1) (newAll', st1) = Some (c, xs', st')" by simp
      from "1.hyps" [OF \<open>idx < length newAll\<close> u refl refl refl False this] e
      show ?thesis by simp
    qed
  qed
qed

text \<open>The \<^verbatim>\<open>while (changed)\<close> loop: scan again until a scan erases nothing.\<close>

function uniqWhile ::
  "kernel \<Rightarrow> NBNode \<Rightarrow> NBEdge list \<times> shape_state \<Rightarrow> (NBEdge list \<times> shape_state) option" where
  "uniqWhile K node (newAll, st) =
     (case uniqFor K node 0 (newAll, st) of
        None \<Rightarrow> None
      | Some (changed, newAll', st') \<Rightarrow>
          if changed then uniqWhile K node (newAll', st') else Some (newAll', st'))"
  by pat_completeness auto
termination
proof (relation "measure (\<lambda>(K, node, newAll, st). length newAll)", goal_cases)
  case 1
  show ?case by simp
next
  case (2 K node newAll st x2 changed y newAll' st')
  then have "uniqFor K node 0 (newAll, st) = Some (changed, newAll', st')" by simp
  from uniqFor_length [OF this] \<open>changed\<close> have "length newAll' < length newAll" by simp
  then show ?case by simp
qed

declare uniqWhile.simps [simp del]

definition computeUniqueDirectionList ::
  "kernel \<Rightarrow> NBNode \<Rightarrow> shape_state \<Rightarrow> (NBEdge list \<times> shape_state) option" where
  "computeUniqueDirectionList K node st = uniqWhile K node (myAllEdges node, st)"

section \<open>Neighbours and angular gaps\<close>

text \<open>
  The iterators \<^verbatim>\<open>cwi\<close> and \<^verbatim>\<open>ccwi\<close> are positions in the direction list: the next one
  and the previous one, wrapping around. The result is \<open>(cwi, ccwi, cad, ccad)\<close>.
\<close>

definition initNeighbors ::
  "kernel \<Rightarrow> NBEdge list \<Rightarrow> nat \<Rightarrow> bool \<Rightarrow> shape_state \<Rightarrow> (nat \<times> nat \<times> real \<times> real) option" where
  "initNeighbors K es current simpleContinuation st = do {
     let twoPI = 2 * pi;
     let cwi = (if current + 1 = length es then 0 else current + 1);
     let ccwi = (if current = 0 then length es - 1 else current - 1);
     lI \<leftarrow> lineAt (geom_at (geomsCCW st) (es ! current)) 0;
     lCCW \<leftarrow> lineAt (geom_at (geomsCW st) (es ! ccwi)) 0;
     lCW \<leftarrow> lineAt (geom_at (geomsCW st) (es ! cwi)) 0;
     let angleI = atan2PositiveAngle K lI;
     let angleCCW = atan2PositiveAngle K lCCW;
     let angleCW = atan2PositiveAngle K lCW;
     let ccad = (if angleI > angleCCW then angleI - angleCCW else twoPI - angleCCW + angleI);
     let cad = (if angleI > angleCW then twoPI - angleI + angleCW else angleCW - angleI);
     let ccad = (if ccad < 0 then ccad + twoPI else ccad);
     let ccad = (if ccad > twoPI then ccad - twoPI else ccad);
     let cad = (if cad < 0 then cad + twoPI else cad);
     let cad = (if cad > twoPI then cad - twoPI else cad);
     let ccad = (if simpleContinuation \<and> ccad < DEG2RAD 45 then ccad + twoPI else ccad);
     let cad = (if simpleContinuation \<and> cad < DEG2RAD 45 then cad + twoPI else cad);
     Some (cwi, ccwi, cad, ccad) }"

section \<open>Boundary trim engine\<close>

subsection \<open>First pass\<close>

definition dist_at :: "(NBEdge \<rightharpoonup> real) \<Rightarrow> NBEdge \<Rightarrow> real \<times> (NBEdge \<rightharpoonup> real)" where
  \<comment> \<open>\<^verbatim>\<open>distances[e]\<close> as a read: a missing key is inserted with the value 0\<close>
  "dist_at D e = (case D e of None \<Rightarrow> (0, D(e \<mapsto> 0)) | Some d \<Rightarrow> (d, D))"

text \<open>
  The general case of the first pass. The source writes it twice, once for
  \<^verbatim>\<open>ccad < cad\<close> and once mirrored; \<open>x1, x2\<close> are the two boundaries intersected first
  and \<open>y1, y2\<close> the two intersected second.
\<close>

definition trimGeneral ::
  "kernel \<Rightarrow> bool \<Rightarrow> real \<Rightarrow> PositionVector \<Rightarrow> PositionVector \<Rightarrow> PositionVector \<Rightarrow> PositionVector
     \<Rightarrow> real \<Rightarrow> real \<Rightarrow> NBEdge \<Rightarrow> NBEdge \<Rightarrow> NBEdge \<Rightarrow> (NBEdge \<rightharpoonup> real)
     \<Rightarrow> (NBEdge \<rightharpoonup> real) option" where
  "trimGeneral K simpleContinuation radius x1 x2 y1 y2 ccad cad i cw ccw D =
     (if \<not> simpleContinuation then
        (if intersects K x1 x2 then do {
           o1 \<leftarrow> first_of (intersectsAtLengths2D K x1 x2);
           let D1 = D(i \<mapsto> radius + o1);
           if cw \<noteq> ccw \<and> intersects K y1 y2 then do {
             let a1 = radius + o1;
             o2 \<leftarrow> first_of (intersectsAtLengths2D K y1 y2);
             let a2 = radius + o2;
             if ccad > DEG2RAD (90 + 45) \<and> cad > DEG2RAD (90 + 45) then do {
               let (dcw, D2) = dist_at D1 cw;
               let (dccw, D3) = dist_at D2 ccw;
               let mmin = MIN2 dcw dccw;
               Some (if mmin > 100 then D3(i \<mapsto> 5 + 100 - (mmin - 100)) else D3) }
             else if a2 > a1 + POSITION_EPS K \<and> a2 - a1 < 10 then Some (D1(i \<mapsto> a2))
             else Some D1 }
           else Some D1 }
         else if cw \<noteq> ccw \<and> intersects K y1 y2 then do {
           o2 \<leftarrow> first_of (intersectsAtLengths2D K y1 y2);
           Some (D(i \<mapsto> radius + o2)) }
         else Some (D(i \<mapsto> 100 + radius)))
      else
        (if intersects K x1 x2 then do {
           o1 \<leftarrow> first_of (intersectsAtLengths2D K x1 x2);
           Some (D(i \<mapsto> o1)) }
         else Some (D(i \<mapsto> 100))))"

text \<open>The two-direction, nearly parallel case of the first pass.\<close>

definition trimParallel ::
  "kernel \<Rightarrow> NBNode \<Rightarrow> bool \<Rightarrow> real \<Rightarrow> NBEdge \<Rightarrow> NBEdge \<Rightarrow> shape_state \<Rightarrow> shape_state option" where
  "trimParallel K node simpleContinuation radius i ccw st = do {
     a \<leftarrow> pv_at (geom_at (geomsCCW st) ccw) 0;
     b \<leftarrow> pv_at (geom_at (geomsCW st) ccw) 0;
     p \<leftarrow> (if myExtended st ccw \<noteq> None then Some (pos_mul (pos_add a b) 0.5)
           else do {
             c \<leftarrow> pv_at (geom_at (geomsCCW st) i) 0;
             d \<leftarrow> pv_at (geom_at (geomsCW st) i) 0;
             Some (pos_mul (pos_add (pos_add (pos_add a b) c) d) 0.25) });
     let dist = nearest_offset_to_point2D K (geom_at (geomsCCW st) i) p;
     if dist < 0 then do {
       let g = getGeometry (edges st) i;
       let g = (if hasIncoming node i then push_back_noDoublePos K g p
                else push_front_noDoublePos K g p);
       let H = setGeometry (edges st) i g;
       ccwB \<leftarrow> getCCWBoundaryLine K (H i) node;
       cwB \<leftarrow> getCWBoundaryLine K (H i) node;
       Some (st\<lparr>edges := H,
                geomsCCW := (geomsCCW st)(i \<mapsto> extrapolate K ccwB 100),
                geomsCW := (geomsCW st)(i \<mapsto> extrapolate K cwB 100),
                distances := (distances st)(i \<mapsto> 100),
                myExtended := (myExtended st)(i \<mapsto> True)\<rparr>) }
     else Some (st\<lparr>distances :=
                  (distances st)(i \<mapsto> (if \<not> simpleContinuation then dist + radius else dist))\<rparr>) }"

text \<open>The body of the first loop over the directions, for the position \<open>n\<close>.\<close>

definition pass1Step ::
  "kernel \<Rightarrow> NBNode \<Rightarrow> bool \<Rightarrow> real \<Rightarrow> NBEdge list \<Rightarrow> nat \<Rightarrow> shape_state \<Rightarrow> shape_state option" where
  "pass1Step K node simpleContinuation radius newAll n st = do {
     (cwi, ccwi, cad, ccad) \<leftarrow> initNeighbors K newAll n simpleContinuation st;
     let i = newAll ! n;
     let cw = newAll ! cwi;
     let ccw = newAll ! ccwi;
     if cw = ccw \<and> ((simpleContinuation \<and> \<bar>ccad - cad\<bar> < 0.1)
                    \<or> (\<not> simpleContinuation \<and> \<bar>ccad - cad\<bar> < DEG2RAD 22.5))
     then trimParallel K node simpleContinuation radius i ccw st
     else do {
       D \<leftarrow> (if ccad < cad
              then trimGeneral K simpleContinuation radius
                     (geom_at (geomsCCW st) i) (geom_at (geomsCW st) ccw)
                     (geom_at (geomsCW st) i) (geom_at (geomsCCW st) cw)
                     ccad cad i cw ccw (distances st)
              else trimGeneral K simpleContinuation radius
                     (geom_at (geomsCW st) i) (geom_at (geomsCCW st) cw)
                     (geom_at (geomsCCW st) i) (geom_at (geomsCW st) ccw)
                     ccad cad i cw ccw (distances st));
       Some (st\<lparr>distances := D\<rparr>) } }"

fun pass1Loop ::
  "kernel \<Rightarrow> NBNode \<Rightarrow> bool \<Rightarrow> real \<Rightarrow> NBEdge list \<Rightarrow> nat list \<Rightarrow> shape_state \<Rightarrow> shape_state option" where
  "pass1Loop K node sc radius newAll [] st = Some st"
| "pass1Loop K node sc radius newAll (n # ns) st =
     (case pass1Step K node sc radius newAll n st of
        None \<Rightarrow> None
      | Some st' \<Rightarrow> pass1Loop K node sc radius newAll ns st')"

definition pass1 ::
  "kernel \<Rightarrow> NBNode \<Rightarrow> bool \<Rightarrow> real \<Rightarrow> NBEdge list \<Rightarrow> shape_state \<Rightarrow> shape_state option" where
  "pass1 K node sc radius newAll st = pass1Loop K node sc radius newAll [0..<length newAll] st"

subsection \<open>Second pass\<close>

text \<open>
  An iteration of the second loop either leaves \<^verbatim>\<open>computeNodeShapeDefault\<close> with
  \<^verbatim>\<open>return PositionVector()\<close> (after whatever it has already written to the edges), or
  goes on with the next direction.
\<close>

datatype trim_result = Aborted shape_state | Resolved shape_state

definition andThen ::
  "trim_result option \<Rightarrow> (shape_state \<Rightarrow> trim_result option) \<Rightarrow> trim_result option" where
  "andThen r f =
     (case r of None \<Rightarrow> None | Some (Aborted s) \<Rightarrow> Some (Aborted s) | Some (Resolved s) \<Rightarrow> f s)"

definition orientedGeometry :: "NBNode \<Rightarrow> edge_heap \<Rightarrow> NBEdge \<Rightarrow> PositionVector" where
  \<comment> \<open>\<^verbatim>\<open>counter = e->getGeometry(); if (myNode.hasIncoming(e)) counter = counter.reverse();\<close>\<close>
  "orientedGeometry node H e =
     (if hasIncoming node e then rev (getGeometry H e) else getGeometry H e)"

text \<open>
  One guarded call of \<^verbatim>\<open>replaceLastChecking\<close> or \<^verbatim>\<open>replaceFirstChecking\<close> on the geometry
  of the edge \<open>target\<close>, followed by \<^verbatim>\<open>setGeometry\<close>: the trim distance of the neighbour
  \<open>nb\<close> must be in the map, else the computation is left.
\<close>

definition guardedReplace ::
  "kernel \<Rightarrow> bool \<Rightarrow> NBEdge \<Rightarrow> bool \<Rightarrow> PositionVector \<Rightarrow> NBEdge \<Rightarrow> int \<Rightarrow> shape_state
     \<Rightarrow> trim_result option" where
  "guardedReplace K atEnd target decenter counter nb laneDiff st =
     (case distances st nb of
        None \<Rightarrow> Some (Aborted st)
      | Some d \<Rightarrow> do {
          let g = getGeometry (edges st) target;
          g' \<leftarrow> (if atEnd
                 then replaceLastChecking K g decenter counter
                        (getNumLanes (edges st) nb) d laneDiff
                 else replaceFirstChecking K g decenter counter
                        (getNumLanes (edges st) nb) d laneDiff);
          Some (Resolved (st\<lparr>edges := setGeometry (edges st) target g'\<rparr>)) })"

definition trimOwn ::
  "kernel \<Rightarrow> NBNode \<Rightarrow> NBEdge \<Rightarrow> NBEdge \<Rightarrow> NBEdge \<Rightarrow> int \<Rightarrow> shape_state \<Rightarrow> trim_result option" where
  "trimOwn K node i cw ccw laneDiff st =
     (let H = edges st;
          decenter = (myLaneSpreadFunction (H i) = LANESPREAD_CENTER)
      in if hasIncoming node i then
           (if hasOutgoing node ccw \<and> hasOutgoing node cw
            then guardedReplace K True i decenter (getGeometry H cw) cw laneDiff st
            else guardedReplace K True i decenter (orientedGeometry node H ccw) ccw laneDiff st)
         else
           (if hasIncoming node ccw \<and> hasIncoming node cw
            then guardedReplace K False i decenter (rev (getGeometry H ccw)) ccw laneDiff st
            else guardedReplace K False i decenter (orientedGeometry node H cw) cw laneDiff st))"

definition trimCW ::
  "kernel \<Rightarrow> NBNode \<Rightarrow> NBEdge \<Rightarrow> NBEdge \<Rightarrow> NBEdge \<Rightarrow> int \<Rightarrow> shape_state \<Rightarrow> trim_result option" where
  "trimCW K node i cw ccw laneDiff st =
     (case cwBoundary st i of
        None \<Rightarrow> None
      | Some b \<Rightarrow>
          if b \<noteq> i then
            andThen
              (guardedReplace K (hasIncoming node b) b
                 (myLaneSpreadFunction (edges st i) = LANESPREAD_CENTER)
                 (orientedGeometry node (edges st) cw) cw laneDiff st)
              (\<lambda>st. do {
                 cwB \<leftarrow> getCWBoundaryLine K (edges st b) node;
                 Some (Resolved (st\<lparr>myExtended := (myExtended st)(b \<mapsto> True),
                                    geomsCW := (geomsCW st)(i \<mapsto> extrapolate K cwB 100)\<rparr>)) })
          else do {
            cwB \<leftarrow> getCWBoundaryLine K (edges st i) node;
            Some (Resolved (st\<lparr>geomsCW := (geomsCW st)(i \<mapsto> extrapolate K cwB 100)\<rparr>)) })"

definition trimCCW ::
  "kernel \<Rightarrow> NBNode \<Rightarrow> NBEdge \<Rightarrow> NBEdge \<Rightarrow> NBEdge \<Rightarrow> int \<Rightarrow> shape_state \<Rightarrow> trim_result option" where
  "trimCCW K node i cw ccw laneDiff st =
     (case ccwBoundary st i of
        None \<Rightarrow> None
      | Some b \<Rightarrow>
          if b \<noteq> i then
            andThen
              (guardedReplace K (hasIncoming node b) b
                 (myLaneSpreadFunction (edges st i) = LANESPREAD_CENTER)
                 (orientedGeometry node (edges st) ccw)
                 (if hasIncoming node b then ccw else cw) laneDiff st)
              (\<lambda>st. do {
                 ccwB \<leftarrow> getCCWBoundaryLine K (edges st b) node;
                 Some (Resolved (st\<lparr>myExtended := (myExtended st)(b \<mapsto> True),
                                    geomsCCW := (geomsCCW st)(i \<mapsto> extrapolate K ccwB 100)\<rparr>)) })
          else do {
            ccwB \<leftarrow> getCCWBoundaryLine K (edges st i) node;
            Some (Resolved (st\<lparr>geomsCCW := (geomsCCW st)(i \<mapsto> extrapolate K ccwB 100)\<rparr>)) })"

definition trimFinish ::
  "kernel \<Rightarrow> NBEdge \<Rightarrow> NBEdge \<Rightarrow> NBEdge \<Rightarrow> shape_state \<Rightarrow> trim_result option" where
  "trimFinish K i cw ccw st = do {
     (cwG, ccwG) \<leftarrow> computeSameEnd K (geom_at (geomsCW st) i) (geom_at (geomsCCW st) i);
     let H = edges st;
     let offset = (if getNumLanes H cw + getNumLanes H ccw > getNumLanes H i then 5 else 0);
     let offset = (if ccwBoundary st i \<noteq> cwBoundary st i then 5 else offset);
     Some (Resolved (st\<lparr>geomsCW := (geomsCW st)(i \<mapsto> cwG),
                        geomsCCW := (geomsCCW st)(i \<mapsto> ccwG),
                        myExtended := (myExtended st)(i \<mapsto> True),
                        distances := (distances st)(i \<mapsto> 100 + offset)\<rparr>)) }"

text \<open>
  The body of the second loop, for the position \<open>n\<close>. The points \<^verbatim>\<open>p1\<close>, \<^verbatim>\<open>p2\<close> and the
  line \<^verbatim>\<open>l\<close> that the source computes first are never read, and its first value of
  \<^verbatim>\<open>laneDiff\<close> is overwritten by 0; neither is part of the model.
\<close>

definition pass2Step ::
  "kernel \<Rightarrow> NBNode \<Rightarrow> bool \<Rightarrow> NBEdge list \<Rightarrow> nat \<Rightarrow> shape_state \<Rightarrow> trim_result option" where
  "pass2Step K node simpleContinuation newAll n st =
     (if distances st (newAll ! n) \<noteq> None then Some (Resolved st)
      else do {
        (cwi, ccwi, cad, ccad) \<leftarrow> initNeighbors K newAll n simpleContinuation st;
        let i = newAll ! n;
        let cw = newAll ! cwi;
        let ccw = newAll ! ccwi;
        let H = edges st;
        let laneDiff = (0::int);
        let laneDiff = (if hasIncoming node i \<and> getNumLanes H ccw mod 2 = 1 then 1 else laneDiff);
        let laneDiff = (if hasOutgoing node i \<and> getNumLanes H cw mod 2 = 1 then 1 else laneDiff);
        andThen (trimOwn K node i cw ccw laneDiff st) (\<lambda>st.
        andThen (trimCW K node i cw ccw laneDiff st) (\<lambda>st.
        andThen (trimCCW K node i cw ccw laneDiff st) (\<lambda>st.
        trimFinish K i cw ccw st))) })"

fun pass2Loop ::
  "kernel \<Rightarrow> NBNode \<Rightarrow> bool \<Rightarrow> NBEdge list \<Rightarrow> nat list \<Rightarrow> shape_state \<Rightarrow> trim_result option" where
  "pass2Loop K node sc newAll [] st = Some (Resolved st)"
| "pass2Loop K node sc newAll (n # ns) st =
     andThen (pass2Step K node sc newAll n st) (pass2Loop K node sc newAll ns)"

definition pass2 ::
  "kernel \<Rightarrow> NBNode \<Rightarrow> bool \<Rightarrow> NBEdge list \<Rightarrow> shape_state \<Rightarrow> trim_result option" where
  "pass2 K node sc newAll st = pass2Loop K node sc newAll [0..<length newAll] st"

section \<open>Corner smoother and polygon construction\<close>

definition pv_set :: "PositionVector \<Rightarrow> int \<Rightarrow> Position \<Rightarrow> PositionVector option" where
  \<comment> \<open>an assignment \<^verbatim>\<open>v[i] = p\<close> through \<^verbatim>\<open>operator[](int)\<close>\<close>
  "pv_set v i p =
     (let n = int (length v); j = (if i < 0 then n + i else i)
      in if 0 \<le> j \<and> j < n then Some (v[nat j := p]) else None)"

definition getSmoothCorner ::
  "kernel \<Rightarrow> NBNode \<Rightarrow> PositionVector \<Rightarrow> PositionVector \<Rightarrow> Position \<Rightarrow> Position \<Rightarrow> int
     \<Rightarrow> PositionVector option" where
  "getSmoothCorner K node begShape endShape begPoint endPoint cornerDetail =
     (if cornerDetail > 0 then do {
        begShape \<leftarrow> pv_set (rev begShape) (-1) begPoint;
        endShape \<leftarrow> pv_set endShape 0 endPoint;
        let curve = computeSmoothShape K node begShape endShape (cornerDetail + 2) False 25 25;
        if length curve > 2 then do {
          curve \<leftarrow> eraseAt curve 0;
          eraseAt curve (-1) }
        else Some [] }
      else Some [])"

definition boundaryPoint :: "kernel \<Rightarrow> NBNode \<Rightarrow> PositionVector \<Rightarrow> real \<Rightarrow> Position" where
  "boundaryPoint K node bound offset =
     (let len = pv_length K bound;
          p = (if len \<ge> offset then positionAtOffset2D K bound offset
               else positionAtOffset2D K bound len)
      in \<lparr>px = px p, py = py p, pz = pz (myPosition node)\<rparr>)"

text \<open>The body of the loop that builds the polygon, for the position \<open>n\<close>.\<close>

definition buildStep ::
  "kernel \<Rightarrow> NBNode \<Rightarrow> int \<Rightarrow> NBEdge list \<Rightarrow> shape_state \<Rightarrow> nat \<Rightarrow> PositionVector
     \<Rightarrow> PositionVector option" where
  "buildStep K node cornerDetail newAll st n ret = do {
     let i = newAll ! n;
     let ccwBound = geom_at (geomsCCW st) i;
     let offset = fst (dist_at (distances st) i);
     let offset = (if offset = -1 then -0.1 else offset);
     let p = boundaryPoint K node ccwBound offset;
     ret \<leftarrow> (if n \<noteq> 0 then do {
              e \<leftarrow> pv_at ret (-1);
              c \<leftarrow> getSmoothCorner K node (rev (geom_at (geomsCW st) (newAll ! (n - 1))))
                     ccwBound e p cornerDetail;
              Some (pv_append K ret c) }
            else Some ret);
     let ret = push_back_noDoublePos K ret p;
     let p = boundaryPoint K node (geom_at (geomsCW st) i) offset;
     Some (push_back_noDoublePos K ret p) }"

fun buildLoop ::
  "kernel \<Rightarrow> NBNode \<Rightarrow> int \<Rightarrow> NBEdge list \<Rightarrow> shape_state \<Rightarrow> nat list \<Rightarrow> PositionVector
     \<Rightarrow> PositionVector option" where
  "buildLoop K node cd newAll st [] ret = Some ret"
| "buildLoop K node cd newAll st (n # ns) ret =
     (case buildStep K node cd newAll st n ret of
        None \<Rightarrow> None
      | Some ret' \<Rightarrow> buildLoop K node cd newAll st ns ret')"

definition build ::
  "kernel \<Rightarrow> NBNode \<Rightarrow> int \<Rightarrow> NBEdge list \<Rightarrow> shape_state \<Rightarrow> PositionVector option" where
  "build K node cornerDetail newAll st = do {
     ret \<leftarrow> buildLoop K node cornerDetail newAll st [0..<length newAll] [];
     e \<leftarrow> pv_at ret (-1);
     b \<leftarrow> pv_at ret 0;
     c \<leftarrow> getSmoothCorner K node (geom_at (geomsCW st) (last newAll))
            (geom_at (geomsCCW st) (hd newAll)) e b cornerDetail;
     Some (pv_append K ret c) }"

section \<open>The default shape\<close>

definition initial_state :: "NBNode \<Rightarrow> edge_heap \<Rightarrow> shape_state" where
  \<comment> \<open>the empty local maps, and \<^verbatim>\<open>cwBoundary[*i] = *i; ccwBoundary[*i] = *i\<close> for every edge\<close>
  "initial_state node H =
     \<lparr>edges = H, same = Map.empty, geomsCCW = Map.empty, geomsCW = Map.empty,
      ccwBoundary = (\<lambda>e. if e \<in> set (myAllEdges node) then Some e else None),
      cwBoundary = (\<lambda>e. if e \<in> set (myAllEdges node) then Some e else None),
      distances = Map.empty, myExtended = Map.empty\<rparr>"

text \<open>
  \<^verbatim>\<open>computeNodeShapeDefault\<close> returns the polygon; the model returns with it the edges,
  whose geometry the call may have overwritten.
\<close>

text \<open>
  The part of \<^verbatim>\<open>computeNodeShapeDefault\<close> after the first pass: the second pass, which
  may leave with the empty polygon, and the construction of the polygon.
\<close>

definition resolveAndBuild ::
  "kernel \<Rightarrow> NBNode \<Rightarrow> bool \<Rightarrow> int \<Rightarrow> NBEdge list \<Rightarrow> shape_state
     \<Rightarrow> (PositionVector \<times> edge_heap) option" where
  "resolveAndBuild K node simpleContinuation cornerDetail newAll st = do {
     r \<leftarrow> pass2 K node simpleContinuation newAll st;
     case r of
       Aborted st \<Rightarrow> Some ([], edges st)
     | Resolved st \<Rightarrow> do {
         ret \<leftarrow> build K node cornerDetail newAll st;
         Some (ret, edges st) } }"

definition computeNodeShapeDefault ::
  "kernel \<Rightarrow> NBNode \<Rightarrow> edge_heap \<Rightarrow> bool \<Rightarrow> (PositionVector \<times> edge_heap) option" where
  "computeNodeShapeDefault K node H simpleContinuation =
     (if length (myAllEdges node) < 2 then Some ([], H)
      else do {
        let radius = (if myRadius node = UNSPECIFIED_RADIUS K then DEFAULT_RADIUS K
                      else myRadius node);
        let cornerDetail = cornerDetailOption K;
        st \<leftarrow> joinSameDirectionEdges K node (initial_state node H);
        (newAll, st) \<leftarrow> computeUniqueDirectionList K node st;
        if length newAll < 2 then Some ([], edges st)
        else do {
          st \<leftarrow> pass1 K node simpleContinuation radius newAll st;
          resolveAndBuild K node simpleContinuation cornerDetail newAll st } })"

section \<open>The small shape\<close>

text \<open>
  For one edge: the line through the node perpendicular to the first segment of the
  counterclockwise boundary, and the first segments of both boundaries, each extrapolated
  by 500.
\<close>

definition smallLines :: "kernel \<Rightarrow> NBNode \<Rightarrow> edge_heap \<Rightarrow> NBEdge \<Rightarrow> (Line \<times> Line \<times> Line) option" where
  "smallLines K node H i = do {
     ccwB \<leftarrow> getCCWBoundaryLine K (H i) node;
     edgebound1 \<leftarrow> lineAt ccwB 0;
     cwB \<leftarrow> getCWBoundaryLine K (H i) node;
     edgebound2 \<leftarrow> lineAt cwB 0;
     let cross = rotateAtP1 K edgebound1 (pi / 2);
     let cross = line_add cross (pos_sub (myPosition node) (p1 cross));
     let cross = extrapolateBy2D K cross 500;
     let edgebound1 = extrapolateBy2D K edgebound1 500;
     let edgebound2 = extrapolateBy2D K edgebound2 500;
     Some (cross, edgebound1, edgebound2) }"

definition crossing :: "kernel \<Rightarrow> NBNode \<Rightarrow> Line \<Rightarrow> Line \<Rightarrow> Position" where
  \<comment> \<open>\<^verbatim>\<open>np = cross.intersectsAt(edgebound); np.set(np.x(), np.y(), myNode.getPosition().z())\<close>\<close>
  "crossing K node cross edgebound =
     (let np = line_intersectsAt K cross edgebound
      in \<lparr>px = px np, py = py np, pz = pz (myPosition node)\<rparr>)"

definition smallStep :: "kernel \<Rightarrow> NBNode \<Rightarrow> edge_heap \<Rightarrow> NBEdge \<Rightarrow> PositionVector \<Rightarrow> PositionVector option" where
  "smallStep K node H i ret = do {
     (cross, edgebound1, edgebound2) \<leftarrow> smallLines K node H i;
     let ret = (if line_intersects K cross edgebound1
                then push_back_noDoublePos K ret (crossing K node cross edgebound1)
                else ret);
     let ret = (if line_intersects K cross edgebound2
                then push_back_noDoublePos K ret (crossing K node cross edgebound2)
                else ret);
     Some ret }"

fun smallLoop :: "kernel \<Rightarrow> NBNode \<Rightarrow> edge_heap \<Rightarrow> NBEdge list \<Rightarrow> PositionVector \<Rightarrow> PositionVector option" where
  "smallLoop K node H [] ret = Some ret"
| "smallLoop K node H (i # is) ret =
     (case smallStep K node H i ret of
        None \<Rightarrow> None
      | Some ret' \<Rightarrow> smallLoop K node H is ret')"

definition computeNodeShapeSmall :: "kernel \<Rightarrow> NBNode \<Rightarrow> edge_heap \<Rightarrow> PositionVector option" where
  "computeNodeShapeSmall K node H = smallLoop K node H (myAllEdges node) []"

section \<open>The shape classifier\<close>

text \<open>
  The two nested loops of \<^verbatim>\<open>compute\<close> over the incoming and the outgoing edges, which
  aggregate \<^verbatim>\<open>maxAngle\<close>.
\<close>

fun maxAngleInner :: "kernel \<Rightarrow> NBNode \<Rightarrow> edge_heap \<Rightarrow> real \<Rightarrow> NBEdge list \<Rightarrow> real \<Rightarrow> real" where
  "maxAngleInner K node H ia [] maxAngle = maxAngle"
| "maxAngleInner K node H ia (j # js) maxAngle =
     (let oa = getAngleAtNode K (H j) node;
          ad = getMinAngleDiff K ia oa
      in maxAngleInner K node H ia js (if 22.5 \<ge> ad then MAX2 ad maxAngle else maxAngle))"

fun maxAngleOuter :: "kernel \<Rightarrow> NBNode \<Rightarrow> edge_heap \<Rightarrow> NBEdge list \<Rightarrow> real \<Rightarrow> real" where
  "maxAngleOuter K node H [] maxAngle = maxAngle"
| "maxAngleOuter K node H (i # is) maxAngle =
     maxAngleOuter K node H is
       (maxAngleInner K node H (getAngleAtNode K (H i) node) (myOutgoingEdges node) maxAngle)"

definition singleDirection :: "kernel \<Rightarrow> NBNode \<Rightarrow> edge_heap \<Rightarrow> bool option" where
  "singleDirection K node H =
     (if length (myAllEdges node) = 1 then Some True
      else if length (myAllEdges node) = 2 \<and> length (myIncomingEdges node) = 1 then
        (case myOutgoingEdges node of
           [] \<Rightarrow> None
         | out # _ \<Rightarrow> Some (isTurningDirectionAt K H (hd (myIncomingEdges node)) node out))
      else Some False)"

text \<open>
  \<^verbatim>\<open>compute\<close> returns the polygon; the model returns with it the edges as the call leaves
  them. The small shape is computed from the edges as they are at that moment.
\<close>

definition compute :: "kernel \<Rightarrow> NBNode \<Rightarrow> edge_heap \<Rightarrow> (PositionVector \<times> edge_heap) option" where
  "compute K node H = do {
     single \<leftarrow> singleDirection K node H;
     if single then map_option (\<lambda>ret. (ret, H)) (computeNodeShapeSmall K node H)
     else do {
       let geometryLike = isSimpleContinuation K H node;
       if geometryLike \<and> maxAngleOuter K node H (myIncomingEdges node) 0 > 22.5
       then map_option (\<lambda>ret. (ret, H)) (computeNodeShapeSmall K node H)
       else do {
         (ret, H') \<leftarrow> computeNodeShapeDefault K node H geometryLike;
         if length ret < 3
         then map_option (\<lambda>ret. (ret, H')) (computeNodeShapeSmall K node H')
         else Some (ret, H') } } }"

section \<open>The direction merger leaves the edges alone\<close>

lemma joinPair_edges: "joinPair K node i inc l1 a1 j st = Some st' \<Longrightarrow> edges st' = edges st"
  by (auto simp: joinPair_def Let_def split: Option.bind_splits if_splits)

lemma joinInner_edges: "joinInner K node i inc l1 a1 js st = Some st' \<Longrightarrow> edges st' = edges st"
  by (induction js arbitrary: st) (auto split: option.splits dest: joinPair_edges)

lemma joinPrepare_edges: "joinPrepare K node i st = Some (inc, l1, a1, st') \<Longrightarrow> edges st' = edges st"
  by (auto simp: joinPrepare_def Let_def split: Option.bind_splits)

lemma joinOuter_edges: "joinOuter K node es st = Some st' \<Longrightarrow> edges st' = edges st"
proof (induction es arbitrary: st)
  case Nil
  then show ?case by simp
next
  case (Cons i js)
  note prems = Cons.prems and IH = Cons.IH
  show ?case
  proof (cases js)
    case Nil
    with prems show ?thesis by simp
  next
    case (Cons j js')
    with prems obtain inc l1 a1 st1 st2 where
      p: "joinPrepare K node i st = Some (inc, l1, a1, st1)" and
      n: "joinInner K node i inc l1 a1 js st1 = Some st2" and
      o: "joinOuter K node js st2 = Some st'"
      by (auto split: option.splits)
    from IH [OF o] joinInner_edges [OF n] joinPrepare_edges [OF p] show ?thesis by simp
  qed
qed

lemma adoptBoundary_edges: "adoptBoundary K node i j st = Some st' \<Longrightarrow> edges st' = edges st"
  by (auto simp: adoptBoundary_def Let_def split: Option.bind_splits if_splits)

lemma uniqInner_edges:
  "uniqInner K node idx js (cur, xs, c, st) = Some (cur', xs', c', st') \<Longrightarrow> edges st' = edges st"
proof (induction js arbitrary: cur xs c st)
  case Nil
  then show ?case by simp
next
  case (Cons j js)
  then show ?case
    by (auto split: option.splits dest!: adoptBoundary_edges)
qed

lemma uniqFor_edges:
  "uniqFor K node idx (xs, st) = Some (c, xs', st') \<Longrightarrow> edges st' = edges st"
proof (induction K node idx "(xs, st)" arbitrary: xs st rule: uniqFor.induct)
  case (1 K node idx newAll st)
  note eq = "1.prems" [unfolded uniqFor.simps [of K node idx newAll st]]
  show ?case
  proof (cases "idx < length newAll")
    case False
    with eq show ?thesis by simp
  next
    case True
    with eq obtain cur' newAll' changed st1 where
      u: "uniqInner K node idx (same_at (same st) (newAll ! idx))
            (newAll ! idx, newAll, False, st) = Some (cur', newAll', changed, st1)"
      by (auto split: option.splits)
    note e = uniqInner_edges [OF u]
    show ?thesis
    proof (cases changed)
      case True
      with eq u \<open>idx < length newAll\<close> e show ?thesis by auto
    next
      case False
      from eq u \<open>idx < length newAll\<close> False
      have "uniqFor K node (idx + 1) (newAll', st1) = Some (c, xs', st')" by simp
      from "1.hyps" [OF \<open>idx < length newAll\<close> u refl refl refl False this] e
      show ?thesis by simp
    qed
  qed
qed

lemma uniqWhile_edges:
  "uniqWhile K node (xs, st) = Some (xs', st') \<Longrightarrow> edges st' = edges st"
proof (induction K node "(xs, st)" arbitrary: xs st rule: uniqWhile.induct)
  case (1 K node newAll st)
  note eq = "1.prems" [unfolded uniqWhile.simps [of K node newAll st]]
  from eq obtain changed newAll' st1 where
    f: "uniqFor K node 0 (newAll, st) = Some (changed, newAll', st1)"
    by (auto split: option.splits)
  note e = uniqFor_edges [OF f]
  show ?case
  proof (cases changed)
    case True
    with eq f have "uniqWhile K node (newAll', st1) = Some (xs', st')" by simp
    from "1.hyps" [OF f refl refl True this] e show ?thesis by simp
  next
    case False
    with eq f e show ?thesis by simp
  qed
qed

lemma computeUniqueDirectionList_edges:
  "computeUniqueDirectionList K node st = Some (xs, st') \<Longrightarrow> edges st' = edges st"
  unfolding computeUniqueDirectionList_def by (rule uniqWhile_edges)

lemma joinSameDirectionEdges_edges:
  "joinSameDirectionEdges K node st = Some st' \<Longrightarrow> edges st' = edges st"
  unfolding joinSameDirectionEdges_def by (rule joinOuter_edges)

lemma initial_state_edges: "edges (initial_state node H) = H"
  by (simp add: initial_state_def)

section \<open>The trim engine resolves every direction in its first pass\<close>

text \<open>
  The edges after a step relate to the edges before: nothing but geometry changes, and
  the old geometry is a contiguous part of the new one.
\<close>

definition grown :: "edge_heap \<Rightarrow> edge_heap \<Rightarrow> bool" where
  "grown H H' = (\<forall>e. sublist (getGeometry H e) (getGeometry H' e))"

lemma grown_refl: "grown H H"
  by (simp add: grown_def)

lemma grown_trans: "grown H H' \<Longrightarrow> grown H' H'' \<Longrightarrow> grown H H''"
  unfolding grown_def sublist_def
proof (intro allI)
  fix e
  assume a: "\<forall>e. \<exists>ps ss. getGeometry H' e = ps @ getGeometry H e @ ss"
    and b: "\<forall>e. \<exists>ps ss. getGeometry H'' e = ps @ getGeometry H' e @ ss"
  from a obtain ps ss where 1: "getGeometry H' e = ps @ getGeometry H e @ ss" by blast
  from b obtain ps' ss' where 2: "getGeometry H'' e = ps' @ getGeometry H' e @ ss'" by blast
  from 1 2 have "getGeometry H'' e = (ps' @ ps) @ getGeometry H e @ (ss @ ss')" by simp
  then show "\<exists>ps ss. getGeometry H'' e = ps @ getGeometry H e @ ss" by blast
qed

lemma dist_at_dom: "dist_at D e = (d, D') \<Longrightarrow> D' e \<noteq> None \<and> (\<forall>x. D x \<noteq> None \<longrightarrow> D' x \<noteq> None)"
  by (auto simp: dist_at_def split: option.splits)

lemma trimGeneral_dom:
  "trimGeneral K sc radius x1 x2 y1 y2 ccad cad i cw ccw D = Some D'
   \<Longrightarrow> D' i \<noteq> None \<and> (\<forall>x. D x \<noteq> None \<longrightarrow> D' x \<noteq> None)"
  unfolding trimGeneral_def
  by (auto simp: Let_def dist_at_def split: if_splits Option.bind_splits option.splits prod.splits)

lemma push_back_sublist: "sublist g (push_back_noDoublePos K g p)"
  by (simp add: push_back_noDoublePos_def)

lemma push_front_sublist: "sublist g (push_front_noDoublePos K g p)"
  unfolding push_front_noDoublePos_def
  using sublist_append_leftI [of g "[p]"] by simp

lemma grown_setGeometry: "sublist (getGeometry H e) g \<Longrightarrow> grown H (setGeometry H e g)"
  by (simp add: grown_def setGeometry_def getGeometry_def)

lemma trimParallel_resolves:
  "trimParallel K node sc radius i ccw st = Some st'
   \<Longrightarrow> distances st' i \<noteq> None \<and> (\<forall>x. distances st x \<noteq> None \<longrightarrow> distances st' x \<noteq> None)
       \<and> grown (edges st) (edges st')"
  unfolding trimParallel_def
  by (auto simp: Let_def grown_refl intro!: grown_setGeometry push_back_sublist push_front_sublist
           split: if_splits Option.bind_splits)

lemma pass1Step_resolves:
  "pass1Step K node sc radius newAll n st = Some st'
   \<Longrightarrow> distances st' (newAll ! n) \<noteq> None
       \<and> (\<forall>x. distances st x \<noteq> None \<longrightarrow> distances st' x \<noteq> None)
       \<and> grown (edges st) (edges st')"
  unfolding pass1Step_def
  by (auto simp: Let_def grown_refl split: if_splits Option.bind_splits prod.splits
           dest!: trimParallel_resolves trimGeneral_dom)

lemma pass1Loop_resolves:
  "pass1Loop K node sc radius newAll ns st = Some st'
   \<Longrightarrow> (\<forall>n \<in> set ns. distances st' (newAll ! n) \<noteq> None)
       \<and> (\<forall>x. distances st x \<noteq> None \<longrightarrow> distances st' x \<noteq> None)
       \<and> grown (edges st) (edges st')"
proof (induction ns arbitrary: st)
  case Nil
  then show ?case by (simp add: grown_refl)
next
  case (Cons n ns)
  from Cons.prems obtain st1 where
    s: "pass1Step K node sc radius newAll n st = Some st1" and
    l: "pass1Loop K node sc radius newAll ns st1 = Some st'"
    by (auto split: option.splits)
  from pass1Step_resolves [OF s] Cons.IH [OF l] show ?case
    by (auto intro: grown_trans)
qed

lemma pass1_resolves:
  assumes "pass1 K node sc radius newAll st = Some st'"
  shows "\<forall>n < length newAll. distances st' (newAll ! n) \<noteq> None" and "grown (edges st) (edges st')"
  using pass1Loop_resolves [OF assms [unfolded pass1_def]] by auto

lemma pass2Loop_resolved:
  "\<forall>n \<in> set ns. distances st (newAll ! n) \<noteq> None
   \<Longrightarrow> pass2Loop K node sc newAll ns st = Some (Resolved st)"
  by (induction ns) (auto simp: pass2Step_def andThen_def)

lemma pass2_after_pass1:
  "pass1 K node sc radius newAll st = Some st'
   \<Longrightarrow> pass2 K node sc newAll st' = Some (Resolved st')"
  unfolding pass2_def
  by (rule pass2Loop_resolved) (use pass1_resolves(1) in auto)

lemma computeNodeShapeDefault_cases:
  assumes "computeNodeShapeDefault K node H sc = Some (ret, H')"
  obtains (few_edges) "length (myAllEdges node) < 2" "ret = []" "H' = H"
  | (few_directions) st newAll st1 where
      "\<not> length (myAllEdges node) < 2"
      "joinSameDirectionEdges K node (initial_state node H) = Some st"
      "computeUniqueDirectionList K node st = Some (newAll, st1)"
      "length newAll < 2" "ret = []" "H' = H"
  | (built) st newAll st1 st2 where
      "\<not> length (myAllEdges node) < 2"
      "joinSameDirectionEdges K node (initial_state node H) = Some st"
      "computeUniqueDirectionList K node st = Some (newAll, st1)"
      "\<not> length newAll < 2"
      "pass1 K node sc (if myRadius node = UNSPECIFIED_RADIUS K then DEFAULT_RADIUS K
                        else myRadius node) newAll st1 = Some st2"
      "build K node (cornerDetailOption K) newAll st2 = Some ret"
      "H' = edges st2" "edges st1 = H"
proof (cases "length (myAllEdges node) < 2")
  case True
  with assms have "ret = []" "H' = H" by (simp_all add: computeNodeShapeDefault_def)
  with True show ?thesis by (rule few_edges)
next
  case False
  let ?r = "if myRadius node = UNSPECIFIED_RADIUS K then DEFAULT_RADIUS K else myRadius node"
  from assms False obtain st newAll st1 where
    j: "joinSameDirectionEdges K node (initial_state node H) = Some st" and
    u: "computeUniqueDirectionList K node st = Some (newAll, st1)"
    by (auto simp: computeNodeShapeDefault_def Let_def split: Option.bind_splits)
  from joinSameDirectionEdges_edges [OF j] computeUniqueDirectionList_edges [OF u]
  have e: "edges st1 = H" by (simp add: initial_state_edges)
  have d: "computeNodeShapeDefault K node H sc =
             (if length newAll < 2 then Some ([], edges st1)
              else do {
                st \<leftarrow> pass1 K node sc ?r newAll st1;
                resolveAndBuild K node sc (cornerDetailOption K) newAll st })"
    using False j u by (simp add: computeNodeShapeDefault_def Let_def)
  show ?thesis
  proof (cases "length newAll < 2")
    case True
    with assms d e have "ret = []" "H' = H" by simp_all
    with False j u True show ?thesis by (rule few_directions)
  next
    case f: False
    from assms d f obtain st2 where
      p: "pass1 K node sc ?r newAll st1 = Some st2"
      by (auto split: Option.bind_splits)
    note q = pass2_after_pass1 [OF p]
    from assms d f p q have "build K node (cornerDetailOption K) newAll st2 = Some ret"
      and "H' = edges st2"
      by (auto simp: resolveAndBuild_def split: Option.bind_splits)
    with False j u f p show ?thesis using e by (rule built)
  qed
qed

lemma computeNodeShapeDefault_grown:
  assumes "computeNodeShapeDefault K node H sc = Some (ret, H')"
  shows "grown H H'"
  using assms
proof (cases rule: computeNodeShapeDefault_cases)
  case few_edges
  then show ?thesis by (simp add: grown_refl)
next
  case (few_directions st newAll st1)
  then show ?thesis by (simp add: grown_refl)
next
  case (built st newAll st1 st2)
  from pass1_resolves(2) [OF built(5)] built(7,8) show ?thesis by simp
qed

section \<open>Properties of the shape classifier\<close>

lemma maxAngleInner_bound:
  "m \<le> 22.5 \<Longrightarrow> maxAngleInner K node H ia js m \<le> 22.5"
  by (induction js arbitrary: m) (auto simp: MAX2_def Let_def)

lemma maxAngleOuter_bound:
  "m \<le> 22.5 \<Longrightarrow> maxAngleOuter K node H es m \<le> 22.5"
proof (induction es arbitrary: m)
  case Nil
  then show ?case by simp
next
  case (Cons i es)
  from Cons.IH [OF maxAngleInner_bound [OF Cons.prems]] show ?case by simp
qed

text \<open>
  C10. In \<^verbatim>\<open>compute\<close>, \<^verbatim>\<open>maxAngle\<close> aggregates only angular deviations that are at most
  22.5, so it never exceeds 22.5: the test \<^verbatim>\<open>maxAngle > 22.5\<close> fails for every node, the
  return of the small shape inside the simple-continuation branch is never taken, and every
  node that is not a single direction proceeds to \<^verbatim>\<open>computeNodeShapeDefault\<close>.
\<close>

theorem compute_angle_check_never_small:
  "\<not> maxAngleOuter K node H (myIncomingEdges node) 0 > 22.5
   \<and> compute K node H = do {
         single \<leftarrow> singleDirection K node H;
         if single then map_option (\<lambda>ret. (ret, H)) (computeNodeShapeSmall K node H)
         else do {
           (ret, H') \<leftarrow> computeNodeShapeDefault K node H (isSimpleContinuation K H node);
           if length ret < 3
           then map_option (\<lambda>ret. (ret, H')) (computeNodeShapeSmall K node H')
           else Some (ret, H') } }"
proof -
  have b: "maxAngleOuter K node H (myIncomingEdges node) 0 \<le> 22.5"
    by (rule maxAngleOuter_bound) simp
  then have n: "\<not> maxAngleOuter K node H (myIncomingEdges node) 0 > 22.5"
    by simp
  show ?thesis
    unfolding compute_def Let_def using n by simp
qed

section \<open>Properties of the classifier and of the default shape\<close>

definition uniqueDirections :: "kernel \<Rightarrow> NBNode \<Rightarrow> edge_heap \<Rightarrow> NBEdge list option" where
  "uniqueDirections K node H = do {
     st \<leftarrow> joinSameDirectionEdges K node (initial_state node H);
     (newAll, st) \<leftarrow> computeUniqueDirectionList K node st;
     Some newAll }"

lemma compute_not_single:
  assumes "singleDirection K node H = Some False"
  shows "compute K node H = do {
           (ret, H') \<leftarrow> computeNodeShapeDefault K node H (isSimpleContinuation K H node);
           if length ret < 3
           then map_option (\<lambda>ret. (ret, H')) (computeNodeShapeSmall K node H')
           else Some (ret, H') }"
proof -
  have "maxAngleOuter K node H (myIncomingEdges node) 0 \<le> 22.5"
    by (rule maxAngleOuter_bound) simp
  then have "\<not> maxAngleOuter K node H (myIncomingEdges node) 0 > 22.5" by simp
  with assms show ?thesis by (simp add: compute_def Let_def)
qed

text \<open>
  C2. During one call of \<^verbatim>\<open>compute\<close>, the centerline of an edge only grows: whatever
  \<^verbatim>\<open>setGeometry\<close> has written, the geometry the edge had before is still there, point by
  point and in order, with points added in front or behind. (The only \<^verbatim>\<open>setGeometry\<close>
  that is ever reached is the one of the first pass, which appends or prepends the mean
  point; the second pass, where \<^verbatim>\<open>replaceLastChecking\<close> and \<^verbatim>\<open>replaceFirstChecking\<close>
  may overwrite an end point, finds every direction resolved and skips its body.)
\<close>

theorem compute_only_grows_geometry:
  assumes "compute K node H = Some (ret, H')"
  shows "\<forall>e. sublist (getGeometry H e) (getGeometry H' e)"
proof (cases "singleDirection K node H")
  case None
  with assms show ?thesis by (simp add: compute_def)
next
  case (Some single)
  show ?thesis
  proof (cases single)
    case True
    with Some assms have "H' = H" by (auto simp: compute_def)
    then show ?thesis by simp
  next
    case False
    with Some have s: "singleDirection K node H = Some False" by simp
    from assms [unfolded compute_not_single [OF s]] obtain r H1 where
      d: "computeNodeShapeDefault K node H (isSimpleContinuation K H node) = Some (r, H1)"
      and h: "H' = H1"
      by (auto split: Option.bind_splits if_splits)
    from computeNodeShapeDefault_grown [OF d] h show ?thesis by (simp add: grown_def)
  qed
qed

text \<open>
  C4. For a node that reaches the default path: if \<^verbatim>\<open>computeNodeShapeDefault\<close> yields a
  polygon of fewer than 3 points, \<^verbatim>\<open>compute\<close> returns the small shape instead; otherwise it
  returns the default polygon unchanged.
\<close>

theorem compute_default_fallback:
  assumes "singleDirection K node H = Some False"
    and "computeNodeShapeDefault K node H (isSimpleContinuation K H node) = Some (ret, H')"
  shows "compute K node H =
           (if length ret < 3 then map_option (\<lambda>r. (r, H')) (computeNodeShapeSmall K node H')
            else Some (ret, H'))"
  using assms(2) by (simp add: compute_not_single [OF assms(1)])

lemma default_few_directions:
  assumes "length (myAllEdges node) < 2
           \<or> (\<exists>newAll. uniqueDirections K node H = Some newAll \<and> length newAll < 2)"
  shows "computeNodeShapeDefault K node H sc = Some ([], H)"
proof (cases "length (myAllEdges node) < 2")
  case True
  then show ?thesis by (simp add: computeNodeShapeDefault_def)
next
  case False
  with assms obtain newAll where
    u: "uniqueDirections K node H = Some newAll" and l: "length newAll < 2" by blast
  from u obtain st st1 where
    j: "joinSameDirectionEdges K node (initial_state node H) = Some st" and
    c: "computeUniqueDirectionList K node st = Some (newAll, st1)"
    by (auto simp: uniqueDirections_def split: Option.bind_splits)
  from joinSameDirectionEdges_edges [OF j] computeUniqueDirectionList_edges [OF c]
  have "edges st1 = H" by (simp add: initial_state_edges)
  with False j c l show ?thesis by (simp add: computeNodeShapeDefault_def Let_def)
qed

text \<open>
  C9. For a node with fewer than two incident edges, or whose direction merge leaves fewer
  than two unique directions, \<^verbatim>\<open>computeNodeShapeDefault\<close> returns the empty polygon and
  leaves the edges as they were (it returns before the trim passes); \<^verbatim>\<open>compute\<close> then
  yields the small shape for such a node.
\<close>

theorem default_empty_when_fewer_than_two_directions:
  assumes "length (myAllEdges node) < 2
           \<or> (\<exists>newAll. uniqueDirections K node H = Some newAll \<and> length newAll < 2)"
  shows "computeNodeShapeDefault K node H sc = Some ([], H)
         \<and> (singleDirection K node H \<noteq> None \<longrightarrow>
              compute K node H = map_option (\<lambda>r. (r, H)) (computeNodeShapeSmall K node H))"
proof -
  note d = default_few_directions [OF assms]
  have "compute K node H = map_option (\<lambda>r. (r, H)) (computeNodeShapeSmall K node H)"
    if "singleDirection K node H = Some b" for b
  proof (cases b)
    case True
    with that show ?thesis by (simp add: compute_def)
  next
    case False
    with that have "singleDirection K node H = Some False" by simp
    from compute_not_single [OF this] d show ?thesis by simp
  qed
  with d show ?thesis by auto
qed

lemma push_back_length: "length (push_back_noDoublePos K v p) \<le> Suc (length v)"
  by (simp add: push_back_noDoublePos_def)

text \<open>
  C3, as amended. For a node with exactly one incident edge, \<^verbatim>\<open>compute\<close> returns exactly
  the result of \<^verbatim>\<open>computeNodeShapeSmall\<close>, without entering the default path. That polygon
  has at most 2 vertices; it has exactly 2 if and only if the perpendicular through the node
  crosses both boundary lines of the edge and the second crossing point is not (almost) the
  same as the first.
\<close>

theorem single_edge_small:
  assumes "myAllEdges node = [e]"
  shows "compute K node H = map_option (\<lambda>r. (r, H)) (computeNodeShapeSmall K node H)
         \<and> (\<forall>ret cross b1 b2.
               computeNodeShapeSmall K node H = Some ret
               \<and> smallLines K node H e = Some (cross, b1, b2) \<longrightarrow>
               length ret \<le> 2
               \<and> (length ret = 2 \<longleftrightarrow>
                    line_intersects K cross b1 \<and> line_intersects K cross b2
                    \<and> \<not> almostSame K (crossing K node cross b2) (crossing K node cross b1)))"
proof -
  from assms have "singleDirection K node H = Some True" by (simp add: singleDirection_def)
  then have 1: "compute K node H = map_option (\<lambda>r. (r, H)) (computeNodeShapeSmall K node H)"
    by (simp add: compute_def)
  have 2: "length ret \<le> 2
           \<and> (length ret = 2 \<longleftrightarrow>
                line_intersects K cross b1 \<and> line_intersects K cross b2
                \<and> \<not> almostSame K (crossing K node cross b2) (crossing K node cross b1))"
    if "computeNodeShapeSmall K node H = Some ret" "smallLines K node H e = Some (cross, b1, b2)"
    for ret cross b1 b2
    using that assms
    by (auto simp: computeNodeShapeSmall_def smallStep_def push_back_noDoublePos_def Let_def
        split: if_splits)
  from 1 2 show ?thesis by blast
qed

section \<open>Idempotence of the direction merge\<close>

text \<open>
  The working list is fully merged with respect to \<^verbatim>\<open>same\<close> when no edge of the list has a
  partner that is itself in the list.
\<close>

definition fullyMerged :: "NBEdge list \<Rightarrow> (NBEdge \<rightharpoonup> NBEdge list) \<Rightarrow> bool" where
  "fullyMerged xs S = (\<forall>e \<in> set xs. \<forall>j \<in> set (same_at S e). j \<notin> set xs)"

lemma uniqInner_noop:
  "\<forall>j \<in> set js. j \<notin> set xs \<Longrightarrow> uniqInner K node idx js (cur, xs, c, st) = Some (cur, xs, c, st)"
  by (induction js) (auto simp: index_of_None [symmetric])

lemma uniqFor_noop:
  "\<forall>i. idx \<le> i \<and> i < length xs \<longrightarrow> (\<forall>j \<in> set (same_at (same st) (xs ! i)). j \<notin> set xs)
   \<Longrightarrow> uniqFor K node idx (xs, st) = Some (False, xs, st)"
proof (induction "length xs - idx" arbitrary: idx)
  case 0
  then show ?case by (simp add: uniqFor.simps [of K node idx xs st])
next
  case (Suc n)
  then have lt: "idx < length xs" by simp
  with Suc.prems have "\<forall>j \<in> set (same_at (same st) (xs ! idx)). j \<notin> set xs" by blast
  then have i: "uniqInner K node idx (same_at (same st) (xs ! idx)) (xs ! idx, xs, False, st)
                = Some (xs ! idx, xs, False, st)"
    by (rule uniqInner_noop)
  from Suc.hyps(2) have n: "n = length xs - (idx + 1)" by simp
  from Suc.prems have "\<forall>i. idx + 1 \<le> i \<and> i < length xs \<longrightarrow>
                          (\<forall>j \<in> set (same_at (same st) (xs ! i)). j \<notin> set xs)"
    by (metis Suc_eq_plus1 Suc_leD)
  from Suc.hyps(1) [OF n this] lt i show ?case
    by (simp add: uniqFor.simps [of K node idx xs st])
qed

lemma uniqWhile_noop:
  assumes "fullyMerged xs (same st)"
  shows "uniqWhile K node (xs, st) = Some (xs, st)"
proof -
  from assms have "\<forall>i. 0 \<le> i \<and> i < length xs \<longrightarrow>
                     (\<forall>j \<in> set (same_at (same st) (xs ! i)). j \<notin> set xs)"
    by (auto simp: fullyMerged_def)
  from uniqFor_noop [OF this] show ?thesis
    by (simp add: uniqWhile.simps [of K node xs st])
qed

lemma adoptBoundary_same: "adoptBoundary K node i j st = Some st' \<Longrightarrow> same st' = same st"
  by (auto simp: adoptBoundary_def Let_def split: Option.bind_splits if_splits)

lemma uniqInner_same:
  "uniqInner K node idx js (cur, xs, c, st) = Some (cur', xs', c', st') \<Longrightarrow> same st' = same st"
proof (induction js arbitrary: cur xs c st)
  case Nil
  then show ?case by simp
next
  case (Cons j js)
  then show ?case
    by (auto split: option.splits dest!: adoptBoundary_same)
qed

lemma uniqInner_found:
  assumes "uniqInner K node idx js (cur, xs, False, st) = Some (cur', xs', False, st')"
  shows "\<forall>j \<in> set js. j \<notin> set xs"
  using assms
proof (induction js)
  case Nil
  then show ?case by simp
next
  case (Cons j js)
  show ?case
  proof (cases "index_of j xs")
    case None
    with Cons show ?thesis by (simp add: index_of_None)
  next
    case (Some k)
    with Cons.prems obtain c1 x1 s1 where
      "uniqInner K node idx js (c1, x1, True, s1) = Some (cur', xs', False, st')"
      by (auto split: option.splits)
    from uniqInner_length [OF this] show ?thesis by simp
  qed
qed

lemma uniqFor_unchanged:
  "uniqFor K node idx (xs, st) = Some (False, xs', st')
   \<Longrightarrow> \<forall>i. idx \<le> i \<and> i < length xs \<longrightarrow> (\<forall>j \<in> set (same_at (same st) (xs ! i)). j \<notin> set xs)"
proof (induction K node idx "(xs, st)" arbitrary: xs st rule: uniqFor.induct)
  case (1 K node idx newAll st)
  note eq = "1.prems" [unfolded uniqFor.simps [of K node idx newAll st]]
  show ?case
  proof (cases "idx < length newAll")
    case False
    then show ?thesis by auto
  next
    case True
    with eq obtain cur' newAll' changed st1 where
      u: "uniqInner K node idx (same_at (same st) (newAll ! idx))
            (newAll ! idx, newAll, False, st) = Some (cur', newAll', changed, st1)"
      by (auto split: option.splits)
    from eq u True have nc: "\<not> changed" by (auto split: if_splits)
    with uniqInner_length [OF u] have e: "newAll' = newAll" "st1 = st" by auto
    from u nc have here: "\<forall>j \<in> set (same_at (same st) (newAll ! idx)). j \<notin> set newAll"
      by (auto dest: uniqInner_found)
    from eq u True nc
    have "uniqFor K node (idx + 1) (newAll', st1) = Some (False, xs', st')" by simp
    from "1.hyps" [OF True u refl refl refl nc this] e
    have later: "\<forall>i. idx + 1 \<le> i \<and> i < length newAll \<longrightarrow>
                   (\<forall>j \<in> set (same_at (same st) (newAll ! i)). j \<notin> set newAll)" by simp
    show ?thesis
    proof (intro allI impI)
      fix i assume "idx \<le> i \<and> i < length newAll"
      then consider "i = idx" | "idx + 1 \<le> i \<and> i < length newAll" by linarith
      then show "\<forall>j \<in> set (same_at (same st) (newAll ! i)). j \<notin> set newAll"
        using here later by cases auto
    qed
  qed
qed

lemma uniqFor_same:
  "uniqFor K node idx (xs, st) = Some (c, xs', st') \<Longrightarrow> same st' = same st"
proof (induction K node idx "(xs, st)" arbitrary: xs st rule: uniqFor.induct)
  case (1 K node idx newAll st)
  note eq = "1.prems" [unfolded uniqFor.simps [of K node idx newAll st]]
  show ?case
  proof (cases "idx < length newAll")
    case False
    with eq show ?thesis by simp
  next
    case True
    with eq obtain cur' newAll' changed st1 where
      u: "uniqInner K node idx (same_at (same st) (newAll ! idx))
            (newAll ! idx, newAll, False, st) = Some (cur', newAll', changed, st1)"
      by (auto split: option.splits)
    note e = uniqInner_same [OF u]
    show ?thesis
    proof (cases changed)
      case True
      with eq u \<open>idx < length newAll\<close> e show ?thesis by auto
    next
      case False
      from eq u \<open>idx < length newAll\<close> False
      have "uniqFor K node (idx + 1) (newAll', st1) = Some (c, xs', st')" by simp
      from "1.hyps" [OF \<open>idx < length newAll\<close> u refl refl refl False this] e
      show ?thesis by simp
    qed
  qed
qed

lemma uniqWhile_fullyMerged:
  "uniqWhile K node (xs, st) = Some (xs', st') \<Longrightarrow> fullyMerged xs' (same st')"
proof (induction K node "(xs, st)" arbitrary: xs st rule: uniqWhile.induct)
  case (1 K node newAll st)
  note eq = "1.prems" [unfolded uniqWhile.simps [of K node newAll st]]
  from eq obtain changed newAll' st1 where
    f: "uniqFor K node 0 (newAll, st) = Some (changed, newAll', st1)"
    by (auto split: option.splits)
  show ?case
  proof (cases changed)
    case True
    with eq f have "uniqWhile K node (newAll', st1) = Some (xs', st')" by simp
    from "1.hyps" [OF f refl refl True this] show ?thesis .
  next
    case False
    with eq f have r: "xs' = newAll'" "st' = st1" by simp_all
    from uniqFor_length [OF f] False have u: "newAll' = newAll" "st1 = st" by auto
    from f False have "uniqFor K node 0 (newAll, st) = Some (False, newAll', st1)" by simp
    from uniqFor_unchanged [OF this]
    have "\<forall>i < length newAll. \<forall>j \<in> set (same_at (same st) (newAll ! i)). j \<notin> set newAll"
      by simp
    then have "fullyMerged newAll (same st)"
      unfolding fullyMerged_def by (metis in_set_conv_nth)
    with r u show ?thesis by simp
  qed
qed

text \<open>
  C6. \<^verbatim>\<open>computeUniqueDirectionList\<close> is idempotent. When the working list is already fully
  merged (no edge of the list has a confirmed partner that is still in the list), the merge
  removes nothing and returns the list and all maps as they were; and the list returned by
  a first run is fully merged, so that a second run over it is a no-op.
\<close>

theorem computeUniqueDirectionList_idempotent:
  "(fullyMerged (myAllEdges node) (same st) \<longrightarrow>
      computeUniqueDirectionList K node st = Some (myAllEdges node, st))
   \<and> (\<forall>newAll st'. computeUniqueDirectionList K node st = Some (newAll, st') \<longrightarrow>
         computeUniqueDirectionList K (node\<lparr>myAllEdges := newAll\<rparr>) st' = Some (newAll, st'))"
proof (intro conjI impI allI)
  assume "fullyMerged (myAllEdges node) (same st)"
  then show "computeUniqueDirectionList K node st = Some (myAllEdges node, st)"
    unfolding computeUniqueDirectionList_def by (rule uniqWhile_noop)
next
  fix newAll st'
  assume "computeUniqueDirectionList K node st = Some (newAll, st')"
  then have "fullyMerged newAll (same st')"
    unfolding computeUniqueDirectionList_def by (rule uniqWhile_fullyMerged)
  then show "computeUniqueDirectionList K (node\<lparr>myAllEdges := newAll\<rparr>) st' = Some (newAll, st')"
    unfolding computeUniqueDirectionList_def by (simp add: uniqWhile_noop)
qed

section \<open>A kernel for examples\<close>

text \<open>
  An instance of the kernel on which the functions above can be run. Distances, angles
  and single lines follow plane geometry, in a form that evaluates on segments parallel to
  an axis; the operations on polylines are written for the polylines of the examples,
  which consist of such segments.
\<close>

definition dist2D :: "Position \<Rightarrow> Position \<Rightarrow> real" where
  "dist2D a b =
     (if py a = py b then \<bar>px a - px b\<bar>
      else if px a = px b then \<bar>py a - py b\<bar>
      else sqrt ((px a - px b)\<^sup>2 + (py a - py b)\<^sup>2))"

definition unit2D :: "Line \<Rightarrow> real \<times> real" where
  "unit2D l =
     (let d = dist2D (p1 l) (p2 l)
      in ((px (p2 l) - px (p1 l)) / d, (py (p2 l) - py (p1 l)) / d))"

definition shift :: "Position \<Rightarrow> real \<Rightarrow> real \<times> real \<Rightarrow> Position" where
  "shift a c u = \<lparr>px = px a + c * fst u, py = py a + c * snd u, pz = pz a\<rparr>"

definition leftOf :: "real \<times> real \<Rightarrow> real \<times> real" where
  "leftOf u = (- snd u, fst u)"

definition k_extrapolateBy2D :: "Line \<Rightarrow> real \<Rightarrow> Line" where
  "k_extrapolateBy2D l len =
     \<lparr>p1 = shift (p1 l) (- len) (unit2D l), p2 = shift (p2 l) len (unit2D l)\<rparr>"

definition k_rotateAtP1 :: "Line \<Rightarrow> real \<Rightarrow> Line" where
  "k_rotateAtP1 l r =
     (let x = px (p2 l) - px (p1 l); y = py (p2 l) - py (p1 l)
      in \<lparr>p1 = p1 l,
          p2 = \<lparr>px = px (p1 l) + x * cos r - y * sin r,
                py = py (p1 l) + x * sin r + y * cos r, pz = pz (p2 l)\<rparr>\<rparr>)"

definition k_move2side :: "Line \<Rightarrow> real \<Rightarrow> Line" where
  "k_move2side l amount =
     \<lparr>p1 = shift (p1 l) amount (leftOf (unit2D l)), p2 = shift (p2 l) amount (leftOf (unit2D l))\<rparr>"

definition atan2 :: "real \<Rightarrow> real \<Rightarrow> real" where
  "atan2 y x =
     (if x > 0 then arctan (y / x)
      else if x < 0 then (if y \<ge> 0 then arctan (y / x) + pi else arctan (y / x) - pi)
      else if y > 0 then pi / 2 else if y < 0 then - pi / 2 else 0)"

definition atan2Angle :: "Line \<Rightarrow> real" where
  "atan2Angle l = atan2 (px (p1 l) - px (p2 l)) (py (p1 l) - py (p2 l))"

definition cross2 :: "Position \<Rightarrow> Position \<Rightarrow> Position \<Rightarrow> real" where
  "cross2 a b c = (px b - px a) * (py c - py a) - (py b - py a) * (px c - px a)"

definition k_line_intersects :: "Line \<Rightarrow> Line \<Rightarrow> bool" where
  "k_line_intersects l m =
     (cross2 (p1 m) (p2 m) (p1 l) \<noteq> cross2 (p1 m) (p2 m) (p2 l)
      \<and> cross2 (p1 l) (p2 l) (p1 m) * cross2 (p1 l) (p2 l) (p2 m) \<le> 0
      \<and> cross2 (p1 m) (p2 m) (p1 l) * cross2 (p1 m) (p2 m) (p2 l) \<le> 0)"

definition k_line_intersectsAt :: "Line \<Rightarrow> Line \<Rightarrow> Position" where
  "k_line_intersectsAt l m =
     (let a = cross2 (p1 m) (p2 m) (p1 l); b = cross2 (p1 m) (p2 m) (p2 l); t = a / (a - b)
      in \<lparr>px = px (p1 l) + t * (px (p2 l) - px (p1 l)),
          py = py (p1 l) + t * (py (p2 l) - py (p1 l)),
          pz = pz (p1 l) + t * (pz (p2 l) - pz (p1 l))\<rparr>)"

fun segs :: "PositionVector \<Rightarrow> Line list" where
  "segs (a # b # r) = \<lparr>p1 = a, p2 = b\<rparr> # segs (b # r)"
| "segs _ = []"

definition k_length :: "PositionVector \<Rightarrow> real" where
  "k_length v = sum_list (map (\<lambda>l. dist2D (p1 l) (p2 l)) (segs v))"

definition k_intersects :: "PositionVector \<Rightarrow> PositionVector \<Rightarrow> bool" where
  "k_intersects v w = list_ex (\<lambda>l. list_ex (k_line_intersects l) (segs w)) (segs v)"

fun offsets :: "real \<Rightarrow> Line list \<Rightarrow> Line list \<Rightarrow> real list" where
  "offsets seen [] ms = []"
| "offsets seen (l # ls) ms =
     map (\<lambda>m. seen + dist2D (p1 l) (k_line_intersectsAt l m)) (filter (k_line_intersects l) ms)
     @ offsets (seen + dist2D (p1 l) (p2 l)) ls ms"

fun k_positionAtOffset2D :: "PositionVector \<Rightarrow> real \<Rightarrow> Position" where
  "k_positionAtOffset2D (a # b # r) pos =
     (if r = [] \<or> dist2D a b > pos then shift a pos (unit2D \<lparr>p1 = a, p2 = b\<rparr>)
      else k_positionAtOffset2D (b # r) (pos - dist2D a b))"
| "k_positionAtOffset2D [a] pos = a"
| "k_positionAtOffset2D [] pos = \<lparr>px = 0, py = 0, pz = 0\<rparr>"

fun k_nearest :: "real \<Rightarrow> Line list \<Rightarrow> Position \<Rightarrow> real" where
  \<comment> \<open>the offset of the first foot of a perpendicular from the point, or -1\<close>
  "k_nearest seen [] p = -1"
| "k_nearest seen (l # ls) p =
     (let d = dist2D (p1 l) (p2 l);
          t = ((px p - px (p1 l)) * fst (unit2D l) + (py p - py (p1 l)) * snd (unit2D l))
      in if 0 \<le> t \<and> t \<le> d then seen + t else k_nearest (seen + d) ls p)"

definition k_extrapolate :: "PositionVector \<Rightarrow> real \<Rightarrow> PositionVector" where
  "k_extrapolate v len =
     (case segs v of
        [] \<Rightarrow> v
      | l # ls \<Rightarrow>
          (v[0 := p1 (k_extrapolateBy2D l len)])
             [length v - 1 := p2 (k_extrapolateBy2D (last (l # ls)) len)])"

definition k_boundary :: "real \<Rightarrow> EdgeData \<Rightarrow> NBNode \<Rightarrow> PositionVector option" where
  \<comment> \<open>the centerline, starting at the node, moved sideways by half the width of the edge\<close>
  "k_boundary side ed n =
     (let g = (if myTo ed = self n then rev (myGeom ed) else myGeom ed)
      in case segs g of
           [] \<Rightarrow> None
         | l # _ \<Rightarrow> Some (map (\<lambda>p. shift p (side * 1.6 * real (myNumLanes ed)) (leftOf (unit2D l))) g))"

definition K0 :: kernel where
  "K0 = \<lparr>almostSame = (\<lambda>a b. a = b),
         distanceTo = (\<lambda>a b. sqrt ((px a - px b)\<^sup>2 + (py a - py b)\<^sup>2 + (pz a - pz b)\<^sup>2)),
         distanceTo2D = dist2D,
         extrapolate = k_extrapolate,
         positionAtOffset2D = k_positionAtOffset2D,
         nearest_offset_to_point2D = (\<lambda>v. k_nearest 0 (segs v)),
         pv_length = k_length,
         intersects = k_intersects,
         intersectsPP = (\<lambda>v a b. k_intersects v [a, b]),
         intersectsAtLengths2D = (\<lambda>v w. offsets 0 (segs v) (segs w)),
         intersectsAtLengths2DLine = (\<lambda>v l. offsets 0 (segs v) [l]),
         getSubpart2D = (\<lambda>v b e. [k_positionAtOffset2D v b, k_positionAtOffset2D v e]),
         pv_distances = (\<lambda>v w perpendicular. map (\<lambda>(a, b). dist2D a b) (zip v w)),
         pv_append = (\<lambda>v w. v @ w),
         getPositionAtDistance2D = (\<lambda>l d. shift (p1 l) d (unit2D l)),
         rotateAtP1 = k_rotateAtP1,
         extrapolateBy2D = k_extrapolateBy2D,
         move2side = k_move2side,
         line_intersects = k_line_intersects,
         line_intersectsAt = k_line_intersectsAt,
         atan2DegreeAngle = (\<lambda>l. atan2Angle l * 180 / pi),
         atan2PositiveAngle = (\<lambda>l. if atan2Angle l < 0 then 2 * pi + atan2Angle l else atan2Angle l),
         length2D = (\<lambda>l. dist2D (p1 l) (p2 l)),
         getCCWBoundaryLine = k_boundary 1,
         getCWBoundaryLine = k_boundary (-1),
         getAngleAtNode = (\<lambda>ed n. 0),
         getTotalWidth = (\<lambda>ed. 3.2 * real (myNumLanes ed)),
         isTurningDirectionAt = (\<lambda>H e n e'. myFrom (H e) = myTo (H e') \<and> myTo (H e) = myFrom (H e')),
         isSimpleContinuation = (\<lambda>H n. length (myIncomingEdges n) = 1 \<and> length (myOutgoingEdges n) = 1
              \<and> myNumLanes (H (hd (myIncomingEdges n))) = myNumLanes (H (hd (myOutgoingEdges n)))),
         computeSmoothShape = (\<lambda>n b e num isTurnaround extb exte. []),
         getMinAngleDiff = (\<lambda>a b. min \<bar>a - b\<bar> (360 - \<bar>a - b\<bar>)),
         SUMO_const_laneWidth = 3.2,
         SUMO_const_halfLaneAndOffset = 1.7,
         SUMO_const_laneWidthAndOffset = 3.3,
         POSITION_EPS = 0.1,
         UNSPECIFIED_RADIUS = -1,
         DEFAULT_RADIUS = 1.5,
         cornerDetailOption = 0\<rparr>"

definition pt :: "real \<Rightarrow> real \<Rightarrow> Position" where
  "pt x y = \<lparr>px = x, py = y, pz = 0\<rparr>"

text \<open>A straight road through node 7: edge 1 arrives from the west, edge 2 leaves to the east.\<close>

definition road :: edge_heap where
  "road = (\<lambda>e. if e = 1
            then \<lparr>myGeom = [pt (-100) 0, pt 1 0], myNumLanes = 1, myFrom = 6, myTo = 7,
                  myLaneSpreadFunction = LANESPREAD_CENTER\<rparr>
            else \<lparr>myGeom = [pt 1 0, pt 100 0], myNumLanes = 1, myFrom = 7, myTo = 8,
                  myLaneSpreadFunction = LANESPREAD_CENTER\<rparr>)"

definition through :: NBNode where
  "through = \<lparr>self = 7, myAllEdges = [1, 2], myIncomingEdges = [1], myOutgoingEdges = [2],
              myPosition = pt 0 0, myRadius = -1\<rparr>"

subsection \<open>Running the functions on the examples\<close>

lemma computeNodeShapeDefault_run:
  assumes "\<not> length (myAllEdges node) < 2"
    and "joinSameDirectionEdges K node (initial_state node H) = Some st"
    and "computeUniqueDirectionList K node st = Some (newAll, st1)"
    and "\<not> length newAll < 2"
    and "pass1 K node sc (if myRadius node = UNSPECIFIED_RADIUS K then DEFAULT_RADIUS K
                          else myRadius node) newAll st1 = Some st2"
    and "build K node (cornerDetailOption K) newAll st2 = Some ret"
  shows "computeNodeShapeDefault K node H sc = Some (ret, edges st2)"
  using assms pass2_after_pass1 [OF assms(5)]
  by (simp add: computeNodeShapeDefault_def resolveAndBuild_def Let_def)

lemmas k_defs = K0_def k_boundary_def k_extrapolate_def k_extrapolateBy2D_def k_rotateAtP1_def
  k_move2side_def k_line_intersects_def k_line_intersectsAt_def k_length_def k_intersects_def
  dist2D_def unit2D_def shift_def leftOf_def atan2_def atan2Angle_def cross2_def pt_def

lemmas run_defs = joinSameDirectionEdges_def joinPrepare_def joinPair_def sideBoundary_def
  sameDirection_def differentDirs_def badIntersection_def recordSame_def
  extendStart_def angleFurther_def lineAt_def replaceAt_def hasIncoming_def hasOutgoing_def
  initial_state_def Let_def getGeometry_def setGeometry_def getNumLanes_def
  same_at_def geom_at_def MIN3_def
  pass1_def pass1Step_def initNeighbors_def trimParallel_def trimGeneral_def dist_at_def
  pv_at_def pos_add_def pos_mul_def pos_sub_def line_add_def DEG2RAD_def MIN2_def MAX2_def
  build_def buildStep_def boundaryPoint_def
  getSmoothCorner_def push_back_noDoublePos_def push_front_noDoublePos_def
  computeNodeShapeSmall_def smallStep_def smallLines_def
  crossing_def singleDirection_def first_of_def

text \<open>
  The straight road: the state after the direction merge and after the first pass.
\<close>

definition road_merged :: shape_state where
  "road_merged = (initial_state through road)
     \<lparr>geomsCCW := [1 \<mapsto> [pt 101 (-1.6), pt (-100) (-1.6)], 2 \<mapsto> [pt (-99) 1.6, pt 100 1.6]],
      geomsCW := [1 \<mapsto> [pt 101 1.6, pt (-100) 1.6], 2 \<mapsto> [pt (-99) (-1.6), pt 100 (-1.6)]]\<rparr>"

definition road_trimmed :: shape_state where
  "road_trimmed = road_merged\<lparr>distances := [1 \<mapsto> 100, 2 \<mapsto> 100]\<rparr>"

lemma road_join: "joinSameDirectionEdges K0 through (initial_state through road) = Some road_merged"
  by (simp add: road_merged_def run_defs through_def road_def k_defs)

lemma road_unique: "computeUniqueDirectionList K0 through road_merged = Some ([1, 2], road_merged)"
  unfolding computeUniqueDirectionList_def
  by (simp add: uniqWhile_noop fullyMerged_def road_merged_def initial_state_def same_at_def through_def)

lemma road_pass1:
  "pass1 K0 through True
     (if myRadius through = UNSPECIFIED_RADIUS K0 then DEFAULT_RADIUS K0 else myRadius through)
     [1, 2] road_merged = Some road_trimmed"
  by (simp add: road_trimmed_def road_merged_def run_defs through_def road_def k_defs upt_rec)

lemma road_build:
  "build K0 through (cornerDetailOption K0) [1, 2] road_trimmed
   = Some [pt 1 (-1.6), pt 1 1.6, pt 1 (-1.6)]"
  by (simp add: road_trimmed_def road_merged_def run_defs through_def road_def k_defs upt_rec)

lemma road_default:
  "computeNodeShapeDefault K0 through road True = Some ([pt 1 (-1.6), pt 1 1.6, pt 1 (-1.6)], road)"
proof -
  have "computeNodeShapeDefault K0 through road True
        = Some ([pt 1 (-1.6), pt 1 1.6, pt 1 (-1.6)], edges road_trimmed)"
    by (rule computeNodeShapeDefault_run [OF _ road_join road_unique _ road_pass1 road_build])
       (simp_all add: through_def)
  then show ?thesis by (simp add: road_trimmed_def road_merged_def initial_state_def)
qed

lemma road_small: "computeNodeShapeSmall K0 through road = Some [pt 0 (-1.6), pt 0 1.6, pt 0 (-1.6)]"
  by (simp add: run_defs through_def road_def k_defs)

lemma road_single: "singleDirection K0 through road = Some False"
  by (simp add: singleDirection_def through_def road_def K0_def)

lemma road_simple: "isSimpleContinuation K0 road through"
  by (simp add: through_def road_def K0_def)

text \<open>
  A road with a gap: edge 1 arrives at node 7 from the west, edge 2 leaves to the east but
  begins 300 units away. The first pass extends the centerline of edge 1 by the mean point.
\<close>

definition far :: edge_heap where
  "far = (\<lambda>e. if e = 1
            then \<lparr>myGeom = [pt (-100) 0, pt 0 0], myNumLanes = 1, myFrom = 6, myTo = 7,
                  myLaneSpreadFunction = LANESPREAD_CENTER\<rparr>
            else \<lparr>myGeom = [pt 300 0, pt 400 0], myNumLanes = 1, myFrom = 7, myTo = 8,
                  myLaneSpreadFunction = LANESPREAD_CENTER\<rparr>)"

definition far_merged :: shape_state where
  "far_merged = (initial_state through far)
     \<lparr>geomsCCW := [1 \<mapsto> [pt 100 (-1.6), pt (-100) (-1.6)], 2 \<mapsto> [pt 200 1.6, pt 400 1.6]],
      geomsCW := [1 \<mapsto> [pt 100 1.6, pt (-100) 1.6], 2 \<mapsto> [pt 200 (-1.6), pt 400 (-1.6)]]\<rparr>"

lemma far_join: "joinSameDirectionEdges K0 through (initial_state through far) = Some far_merged"
  by (simp add: far_merged_def run_defs through_def far_def k_defs)

lemma far_unique: "computeUniqueDirectionList K0 through far_merged = Some ([1, 2], far_merged)"
  unfolding computeUniqueDirectionList_def
  by (simp add: uniqWhile_noop fullyMerged_def far_merged_def initial_state_def same_at_def through_def)

definition far_trimmed :: shape_state where
  "far_trimmed = far_merged
     \<lparr>edges := setGeometry far 1 [pt (-100) 0, pt 0 0, pt 150 0],
      geomsCCW := [2 \<mapsto> [pt 200 1.6, pt 400 1.6],
                   1 \<mapsto> [pt 250 (-1.6), pt 0 (-1.6), pt (-200) (-1.6)]],
      geomsCW := [2 \<mapsto> [pt 200 (-1.6), pt 400 (-1.6)],
                  1 \<mapsto> [pt 250 1.6, pt 0 1.6, pt (-200) 1.6]],
      distances := [1 \<mapsto> 100, 2 \<mapsto> 50],
      myExtended := [1 \<mapsto> True]\<rparr>"

lemma far_pass1:
  "pass1 K0 through True
     (if myRadius through = UNSPECIFIED_RADIUS K0 then DEFAULT_RADIUS K0 else myRadius through)
     [1, 2] far_merged = Some far_trimmed"
  by (simp add: far_trimmed_def far_merged_def run_defs through_def far_def k_defs upt_rec)

lemma far_build:
  "build K0 through (cornerDetailOption K0) [1, 2] far_trimmed
   = Some [pt 150 (-1.6), pt 150 1.6, pt 250 1.6, pt 250 (-1.6)]"
  by (simp add: far_trimmed_def far_merged_def run_defs through_def far_def k_defs upt_rec)

lemma far_default:
  "computeNodeShapeDefault K0 through far True
   = Some ([pt 150 (-1.6), pt 150 1.6, pt 250 1.6, pt 250 (-1.6)],
           setGeometry far 1 [pt (-100) 0, pt 0 0, pt 150 0])"
proof -
  have "computeNodeShapeDefault K0 through far True
        = Some ([pt 150 (-1.6), pt 150 1.6, pt 250 1.6, pt 250 (-1.6)], edges far_trimmed)"
    by (rule computeNodeShapeDefault_run [OF _ far_join far_unique _ far_pass1 far_build])
       (simp_all add: through_def)
  then show ?thesis by (simp add: far_trimmed_def)
qed

lemma far_single: "singleDirection K0 through far = Some False"
  by (simp add: singleDirection_def through_def far_def K0_def)

lemma far_simple: "isSimpleContinuation K0 far through"
  by (simp add: through_def far_def K0_def)

lemma far_compute:
  "compute K0 through far
   = Some ([pt 150 (-1.6), pt 150 1.6, pt 250 1.6, pt 250 (-1.6)],
           setGeometry far 1 [pt (-100) 0, pt 0 0, pt 150 0])"
  by (simp add: compute_not_single [OF far_single] far_simple far_default)

text \<open>C2 on the road with a gap: edge 1 grows by one point at its end.\<close>

theorem compute_only_grows_geometry_witness:
  "compute K0 through far
   = Some ([pt 150 (-1.6), pt 150 1.6, pt 250 1.6, pt 250 (-1.6)],
           setGeometry far 1 [pt (-100) 0, pt 0 0, pt 150 0])
   \<and> getGeometry far 1 = [pt (-100) 0, pt 0 0]
   \<and> getGeometry (setGeometry far 1 [pt (-100) 0, pt 0 0, pt 150 0]) 1
       = [pt (-100) 0, pt 0 0, pt 150 0]
   \<and> sublist (getGeometry far 1)
        (getGeometry (setGeometry far 1 [pt (-100) 0, pt 0 0, pt 150 0]) 1)"
  using compute_only_grows_geometry [OF far_compute] far_compute
  by (simp add: getGeometry_def setGeometry_def far_def)

text \<open>Two edges that leave node 7 on top of each other.\<close>

definition twins :: edge_heap where
  "twins = (\<lambda>e. \<lparr>myGeom = [pt 0 0, pt 100 0], myNumLanes = 1, myFrom = 7, myTo = 8,
                  myLaneSpreadFunction = LANESPREAD_CENTER\<rparr>)"

definition fork :: NBNode where
  "fork = \<lparr>self = 7, myAllEdges = [3, 4], myIncomingEdges = [], myOutgoingEdges = [3, 4],
           myPosition = pt 0 0, myRadius = -1\<rparr>"

definition fork_merged :: shape_state where
  "fork_merged = (initial_state fork twins)
     \<lparr>same := [3 \<mapsto> [4], 4 \<mapsto> [3]],
      geomsCCW := [3 \<mapsto> [pt (-100) 1.6, pt 100 1.6], 4 \<mapsto> [pt (-100) 1.6, pt 100 1.6]],
      geomsCW := [3 \<mapsto> [pt (-100) (-1.6), pt 100 (-1.6)], 4 \<mapsto> [pt (-100) (-1.6), pt 100 (-1.6)]]\<rparr>"

lemma fork_bad: "badIntersection K0 fork twins 3 4 0 100 3.2 = Some True"
  by (simp add: run_defs fork_def twins_def k_defs)

lemma fork_join: "joinSameDirectionEdges K0 fork (initial_state fork twins) = Some fork_merged"
  by (simp add: fork_merged_def run_defs fork_def twins_def k_defs)

lemma fork_unique: "computeUniqueDirectionList K0 fork fork_merged = Some ([3], fork_merged)"
  by (simp add: computeUniqueDirectionList_def uniqWhile.simps uniqFor.simps adoptBoundary_def
      erase_def hasIncoming_def same_at_def fork_merged_def initial_state_def fork_def)

lemma fork_single: "singleDirection K0 fork twins = Some False"
  by (simp add: singleDirection_def fork_def K0_def)

lemma fork_directions: "uniqueDirections K0 fork twins = Some [3]"
  by (simp add: uniqueDirections_def fork_join fork_unique)

lemma fork_small:
  "computeNodeShapeSmall K0 fork twins = Some [pt 0 1.6, pt 0 (-1.6), pt 0 1.6, pt 0 (-1.6)]"
  by (simp add: run_defs fork_def twins_def k_defs)

text \<open>C9 on the two edges on top of each other, which merge into one direction.\<close>

theorem default_empty_when_fewer_than_two_directions_witness:
  "uniqueDirections K0 fork twins = Some [3]
   \<and> computeNodeShapeDefault K0 fork twins False = Some ([], twins)
   \<and> compute K0 fork twins = Some ([pt 0 1.6, pt 0 (-1.6), pt 0 1.6, pt 0 (-1.6)], twins)"
  using default_empty_when_fewer_than_two_directions [of fork K0 twins False]
    fork_directions fork_single fork_small
  by simp

text \<open>C6 on the same node: the first run removes edge 4, a second run removes nothing.\<close>

theorem computeUniqueDirectionList_idempotent_witness:
  "computeUniqueDirectionList K0 fork fork_merged = Some ([3], fork_merged)
   \<and> fullyMerged [3] (same fork_merged)
   \<and> computeUniqueDirectionList K0 (fork\<lparr>myAllEdges := [3]\<rparr>) fork_merged = Some ([3], fork_merged)"
proof -
  have m: "fullyMerged [3] (same fork_merged)"
    by (simp add: fullyMerged_def fork_merged_def same_at_def)
  from computeUniqueDirectionList_idempotent [of "fork\<lparr>myAllEdges := [3]\<rparr>" fork_merged K0] m
  have a: "computeUniqueDirectionList K0 (fork\<lparr>myAllEdges := [3]\<rparr>) fork_merged
           = Some ([3], fork_merged)" by simp
  from computeUniqueDirectionList_idempotent [of fork fork_merged K0] fork_unique
  have b: "computeUniqueDirectionList K0 (fork\<lparr>myAllEdges := [3]\<rparr>) fork_merged
           = Some ([3], fork_merged)" by blast
  from fork_unique m b show ?thesis by simp
qed

text \<open>
  A dead end: the only edge of node 7 arrives from the west. In \<open>lane\<close> it ends at the
  node; in \<open>remote\<close> its shape ends 600 units before the node.
\<close>

definition lane :: edge_heap where
  "lane = (\<lambda>e. \<lparr>myGeom = [pt (-100) 0, pt 0 0], myNumLanes = 1, myFrom = 6, myTo = 7,
                  myLaneSpreadFunction = LANESPREAD_CENTER\<rparr>)"

definition remote :: edge_heap where
  "remote = (\<lambda>e. \<lparr>myGeom = [pt (-800) 0, pt (-600) 0], myNumLanes = 1, myFrom = 6, myTo = 7,
                  myLaneSpreadFunction = LANESPREAD_CENTER\<rparr>)"

definition deadEnd :: NBNode where
  "deadEnd = \<lparr>self = 7, myAllEdges = [5], myIncomingEdges = [5], myOutgoingEdges = [],
           myPosition = pt 0 0, myRadius = -1\<rparr>"

lemma lane_small: "computeNodeShapeSmall K0 deadEnd lane = Some [pt 0 (-1.6), pt 0 1.6]"
  by (simp add: run_defs deadEnd_def lane_def k_defs)

lemma lane_lines:
  "smallLines K0 deadEnd lane 5 =
   Some (\<lparr>p1 = pt 0 500, p2 = pt 0 (-600)\<rparr>, \<lparr>p1 = pt 500 (-1.6), p2 = pt (-600) (-1.6)\<rparr>,
         \<lparr>p1 = pt 500 1.6, p2 = pt (-600) 1.6\<rparr>)"
  by (simp add: run_defs deadEnd_def lane_def k_defs)

lemma remote_small: "computeNodeShapeSmall K0 deadEnd remote = Some []"
  by (simp add: run_defs deadEnd_def remote_def k_defs)

text \<open>C3, as amended, on the dead end: both crossings exist, the polygon has 2 vertices.\<close>

theorem single_edge_small_witness:
  "myAllEdges deadEnd = [5]
   \<and> compute K0 deadEnd lane = Some ([pt 0 (-1.6), pt 0 1.6], lane)
   \<and> line_intersects K0 \<lparr>p1 = pt 0 500, p2 = pt 0 (-600)\<rparr>
        \<lparr>p1 = pt 500 (-1.6), p2 = pt (-600) (-1.6)\<rparr>
   \<and> line_intersects K0 \<lparr>p1 = pt 0 500, p2 = pt 0 (-600)\<rparr>
        \<lparr>p1 = pt 500 1.6, p2 = pt (-600) 1.6\<rparr>"
proof -
  have e: "myAllEdges deadEnd = [5]" by (simp add: deadEnd_def)
  from single_edge_small [OF e, of K0 lane] lane_small lane_lines
  show ?thesis using e by simp
qed

text \<open>
  C3 as stated fails on the remote dead end: the perpendicular through the node, 500 units
  long on each side, does not reach the boundary lines extrapolated by 500 units, and the
  polygon of the node with its one incident edge has no vertex at all.
\<close>

theorem single_edge_two_vertices_counterexample:
  "myAllEdges deadEnd = [5] \<and> compute K0 deadEnd remote = Some ([], remote)"
  by (simp add: compute_def singleDirection_def remote_small) (simp add: deadEnd_def)

text \<open>
  C4 on the straight road (the default polygon has 3 points and is returned) and on the two
  edges on top of each other (the default polygon is empty, the small shape is returned).
\<close>

theorem compute_default_fallback_witness:
  "singleDirection K0 through road = Some False
   \<and> computeNodeShapeDefault K0 through road (isSimpleContinuation K0 road through)
       = Some ([pt 1 (-1.6), pt 1 1.6, pt 1 (-1.6)], road)
   \<and> compute K0 through road = Some ([pt 1 (-1.6), pt 1 1.6, pt 1 (-1.6)], road)
   \<and> singleDirection K0 fork twins = Some False
   \<and> computeNodeShapeDefault K0 fork twins (isSimpleContinuation K0 twins fork) = Some ([], twins)
   \<and> compute K0 fork twins = Some ([pt 0 1.6, pt 0 (-1.6), pt 0 1.6, pt 0 (-1.6)], twins)"
proof -
  have d1: "computeNodeShapeDefault K0 through road (isSimpleContinuation K0 road through)
            = Some ([pt 1 (-1.6), pt 1 1.6, pt 1 (-1.6)], road)"
    by (simp add: road_simple road_default)
  have d2: "computeNodeShapeDefault K0 fork twins (isSimpleContinuation K0 twins fork)
            = Some ([], twins)"
    by (rule default_few_directions) (simp add: fork_directions)
  from compute_default_fallback [OF road_single d1] compute_default_fallback [OF fork_single d2]
    road_single fork_single d1 d2 fork_small
  show ?thesis by simp
qed

text \<open>
  C1. A simple continuation whose (restricted) maximum angular deviation is at most 22.5
  should get the small shape. The code does otherwise: on the straight road, two edges
  meeting at exactly 180 degrees with one lane each, \<^verbatim>\<open>compute\<close> returns the polygon of
  \<^verbatim>\<open>computeNodeShapeDefault\<close>, cut at the mean of the boundary ends (x = 1), and not the
  small shape, cut at the node (x = 0).
\<close>

theorem straight_road_gets_default_polygon:
  "isSimpleContinuation K0 road through
   \<and> maxAngleOuter K0 through road (myIncomingEdges through) 0 \<le> 22.5
   \<and> compute K0 through road = Some ([pt 1 (-1.6), pt 1 1.6, pt 1 (-1.6)], road)
   \<and> computeNodeShapeSmall K0 through road = Some [pt 0 (-1.6), pt 0 1.6, pt 0 (-1.6)]"
proof -
  have "maxAngleOuter K0 through road (myIncomingEdges through) 0 \<le> 22.5"
    by (rule maxAngleOuter_bound) simp
  then show ?thesis
    by (simp add: compute_not_single [OF road_single] road_simple road_default road_small)
qed

section \<open>The test for a bad intersection\<close>

text \<open>
  The condition in the words of the specification: over the shorter of the horizon and
  each edge's own centerline length, (a) the maximal per-point distance between the two
  centerlines is below the threshold, or (b) the two start points are farther apart than the
  combined half-widths plus epsilon while the minimal distance comes within the combined
  half-widths, or (c) the minimal distance stays above the combined half-widths and the
  absolute angle difference is below 5 degrees. Epsilon appears in the comparison of the
  start points only. Both centerlines are taken from the node outwards when the first edge
  arrives at the node.
\<close>

definition badIntersection_spec ::
  "kernel \<Rightarrow> NBNode \<Rightarrow> edge_heap \<Rightarrow> NBEdge \<Rightarrow> NBEdge \<Rightarrow> real \<Rightarrow> real \<Rightarrow> real \<Rightarrow> bool" where
  "badIntersection_spec K node H e1 e2 absAngleDiff horizon threshold =
     (let reach = Min {horizon, pv_length K (getGeometry H e1), pv_length K (getGeometry H e2)};
          oriented = (\<lambda>e. if myTo (H e1) = self node then rev (getGeometry H e)
                           else getGeometry H e);
          c1 = getSubpart2D K (oriented e1) 0 reach;
          c2 = getSubpart2D K (oriented e2) 0 reach;
          ds = pv_distances K c1 c2 True;
          halfWidths = (getTotalWidth K (H e1) + getTotalWidth K (H e2)) / 2
      in Max (set ds) < threshold
         \<or> (distanceTo2D K (hd c1) (hd c2) > halfWidths + POSITION_EPS K
            \<and> Min (set ds) < halfWidths)
         \<or> (Min (set ds) > halfWidths \<and> absAngleDiff < 5))"

lemma maxValue_Max: "maxValue xs = Some (Max (set xs))" if "xs \<noteq> []"
proof (cases xs)
  case Nil
  with that show ?thesis by simp
next
  case (Cons a list)
  from Max.set_eq_fold [of a list] Cons show ?thesis by simp
qed

lemma minValue_Min: "minValue xs = Some (Min (set xs))" if "xs \<noteq> []"
proof (cases xs)
  case Nil
  with that show ?thesis by simp
next
  case (Cons a list)
  from Min.set_eq_fold [of a list] Cons show ?thesis by simp
qed

lemma MIN3_Min: "MIN3 a b c = Min {a, b, c}"
  by (auto simp: MIN3_def MIN2_def min_def)

lemma pv_at_hd: "v \<noteq> [] \<Longrightarrow> pv_at v 0 = Some (hd v)"
  by (cases v) (simp_all add: pv_at_def)

text \<open>
  C8, as amended. \<^verbatim>\<open>badIntersection\<close> returns true if and only if, over the shorter of the
  horizon and each edge's own centerline length, (a) the maximal per-point distance between
  the two centerlines is below the threshold, or (b) the two start points are farther apart
  than the combined half-widths plus epsilon while the minimal distance is below the
  combined half-widths plus epsilon, or (c) the minimal distance is above the combined
  half-widths plus epsilon and \<^verbatim>\<open>absAngleDiff\<close> is below 5: one bound, \<open>t\<close>, half the sum of
  the total widths plus \<^verbatim>\<open>POSITION_EPS\<close>, serves all three comparisons of (b) and (c). Both
  centerlines are reversed when the first edge arrives at the node. (The function returns
  whenever the two sub-polylines and the list of distances have an element to read.)
\<close>

theorem badIntersection_iff:
  assumes "getSubpart2D K (if myTo (H e1) = self node then rev (getGeometry H e1)
                           else getGeometry H e1) 0
             (MIN3 horizon (pv_length K (getGeometry H e1)) (pv_length K (getGeometry H e2)))
           = c1"
    and "getSubpart2D K (if myTo (H e1) = self node then rev (getGeometry H e2)
                         else getGeometry H e2) 0
             (MIN3 horizon (pv_length K (getGeometry H e1)) (pv_length K (getGeometry H e2)))
           = c2"
    and "pv_distances K c1 c2 True = ds"
    and "(getTotalWidth K (H e1) + getTotalWidth K (H e2)) / 2 + POSITION_EPS K = t"
    and "c1 \<noteq> []" and "c2 \<noteq> []" and "ds \<noteq> []"
  shows "badIntersection K node H e1 e2 absAngleDiff horizon threshold
         = Some (Max (set ds) < threshold
                 \<or> (distanceTo2D K (hd c1) (hd c2) > t \<and> Min (set ds) < t)
                 \<or> (Min (set ds) > t \<and> absAngleDiff < 5))"
  using assms
  unfolding badIntersection_def
  by (auto simp: Let_def maxValue_Max minValue_Min pv_at_hd)

text \<open>C8, as amended, on the two edges on top of each other: case (a) holds.\<close>

theorem badIntersection_iff_witness:
  "getSubpart2D K0 (getGeometry twins 3) 0 100 = [pt 0 0, pt 100 0]
   \<and> getSubpart2D K0 (getGeometry twins 4) 0 100 = [pt 0 0, pt 100 0]
   \<and> pv_distances K0 [pt 0 0, pt 100 0] [pt 0 0, pt 100 0] True = [0, 0]
   \<and> (getTotalWidth K0 (twins 3) + getTotalWidth K0 (twins 4)) / 2 + POSITION_EPS K0 = 3.3
   \<and> badIntersection K0 fork twins 3 4 0 100 3.2 = Some True"
proof -
  have c: "getSubpart2D K0 (if myTo (twins 3) = self fork then rev (getGeometry twins e)
                            else getGeometry twins e) 0
             (MIN3 100 (pv_length K0 (getGeometry twins 3)) (pv_length K0 (getGeometry twins 4)))
           = [pt 0 0, pt 100 0]" for e
    by (simp add: fork_def twins_def getGeometry_def MIN3_def MIN2_def k_defs)
  have d: "pv_distances K0 [pt 0 0, pt 100 0] [pt 0 0, pt 100 0] True = [0, 0]"
    by (simp add: k_defs)
  have t: "(getTotalWidth K0 (twins 3) + getTotalWidth K0 (twins 4)) / 2 + POSITION_EPS K0 = 3.3"
    by (simp add: twins_def K0_def)
  have g: "getSubpart2D K0 (getGeometry twins e) 0 100 = [pt 0 0, pt 100 0]" for e
    by (simp add: twins_def getGeometry_def k_defs)
  from badIntersection_iff [OF c c d t, of 0 "3.2"]
  have "badIntersection K0 fork twins 3 4 0 100 3.2 = Some True" by simp
  with g d t show ?thesis by simp
qed

text \<open>
  Two parallel one-lane edges that leave node 7 side by side, 3.25 apart: more than the
  combined half-widths 3.2, less than 3.3, the combined half-widths plus epsilon.
\<close>

definition rails :: edge_heap where
  "rails = (\<lambda>e. \<lparr>myGeom = (if e = 3 then [pt 0 0, pt 100 0] else [pt 0 3.25, pt 100 3.25]),
                  myNumLanes = 1, myFrom = 7, myTo = 8,
                  myLaneSpreadFunction = LANESPREAD_CENTER\<rparr>)"

text \<open>
  C8 as stated fails on \<open>rails\<close>: the minimal distance 3.25 stays above the combined
  half-widths and the angle difference is 0, so case (c) as worded holds; the code compares
  with 3.3 and returns false.
\<close>

theorem badIntersection_threshold_counterexample:
  "badIntersection K0 fork rails 3 4 0 100 3.2 = Some False
   \<and> badIntersection_spec K0 fork rails 3 4 0 100 3.2"
  by (simp add: badIntersection_def badIntersection_spec_def Let_def fork_def rails_def
      getGeometry_def MIN3_def MIN2_def pv_at_def k_defs)

section \<open>Which pairs the direction merger records\<close>

text \<open>
  For every edge, the first segment of its boundary and the angle further along, as the
  loops of \<^verbatim>\<open>joinSameDirectionEdges\<close> compute them; the decision for a pair as a function
  of the edges alone; and the pairs that \<^verbatim>\<open>same\<close> holds.
\<close>

definition firstSegment :: "kernel \<Rightarrow> NBNode \<Rightarrow> edge_heap \<Rightarrow> NBEdge \<Rightarrow> Line option" where
  \<comment> \<open>\<^verbatim>\<open>l1\<close>, \<^verbatim>\<open>l2\<close> of the source: the first segment of the boundary of an edge\<close>
  "firstSegment K node H e = do { g \<leftarrow> sideBoundary K node H e; lineAt g 0 }"

definition lookaheadAngle :: "kernel \<Rightarrow> NBNode \<Rightarrow> edge_heap \<Rightarrow> NBEdge \<Rightarrow> real option" where
  \<comment> \<open>\<^verbatim>\<open>angle1further\<close>, \<^verbatim>\<open>angle2further\<close> of the source\<close>
  "lookaheadAngle K node H e = do {
     g \<leftarrow> sideBoundary K node H e;
     l \<leftarrow> lineAt g 0;
     angleFurther K g l }"

definition pairDecision :: "kernel \<Rightarrow> NBNode \<Rightarrow> edge_heap \<Rightarrow> NBEdge \<Rightarrow> NBEdge \<Rightarrow> bool option" where
  "pairDecision K node H i j = do {
     l1 \<leftarrow> firstSegment K node H i;
     a1 \<leftarrow> lookaheadAngle K node H i;
     sameDirection K node H i (myTo (H i) = self node) l1 a1 j }"

definition recorded :: "(NBEdge \<rightharpoonup> NBEdge list) \<Rightarrow> (NBEdge \<times> NBEdge) set" where
  "recorded S = {(a, b). b \<in> set (same_at S a)}"

fun pairs :: "NBEdge list \<Rightarrow> (NBEdge \<times> NBEdge) list" where
  "pairs [] = []"
| "pairs (x # xs) = map (Pair x) xs @ pairs xs"

lemma pairs_Cons_split:
  "{(a, b). \<exists>(x, y) \<in> set (pairs (i # js)). D x y \<and> ((a, b) = (x, y) \<or> (a, b) = (y, x))}
   = {(a, b). \<exists>y \<in> set js. D i y \<and> ((a, b) = (i, y) \<or> (a, b) = (y, i))}
     \<union> {(a, b). \<exists>(x, y) \<in> set (pairs js). D x y \<and> ((a, b) = (x, y) \<or> (a, b) = (y, x))}"
  by (simp add: set_eq_iff) blast

lemma in_pairs:
  "(a, b) \<in> set (pairs xs) \<longleftrightarrow> (\<exists>p q. p < q \<and> q < length xs \<and> a = xs ! p \<and> b = xs ! q)"
proof (induction xs)
  case Nil
  then show ?case by simp
next
  case (Cons x xs)
  show ?case
  proof
    assume "(a, b) \<in> set (pairs (x # xs))"
    then consider "a = x" "b \<in> set xs" | "(a, b) \<in> set (pairs xs)" by auto
    then show "\<exists>p q. p < q \<and> q < length (x # xs) \<and> a = (x # xs) ! p \<and> b = (x # xs) ! q"
    proof cases
      case 1
      then obtain k where "k < length xs" "b = xs ! k" by (auto simp: in_set_conv_nth)
      with 1 have "0 < Suc k \<and> Suc k < length (x # xs) \<and> a = (x # xs) ! 0 \<and> b = (x # xs) ! Suc k"
        by simp
      then show ?thesis by blast
    next
      case 2
      with Cons.IH obtain p q where "p < q" "q < length xs" "a = xs ! p" "b = xs ! q" by blast
      then have "Suc p < Suc q \<and> Suc q < length (x # xs)
                 \<and> a = (x # xs) ! Suc p \<and> b = (x # xs) ! Suc q"
        by simp
      then show ?thesis by blast
    qed
  next
    assume "\<exists>p q. p < q \<and> q < length (x # xs) \<and> a = (x # xs) ! p \<and> b = (x # xs) ! q"
    then obtain p q where pq: "p < q" "q < length (x # xs)" "a = (x # xs) ! p" "b = (x # xs) ! q"
      by blast
    from pq(1) obtain q' where q: "q = Suc q'" by (cases q) auto
    show "(a, b) \<in> set (pairs (x # xs))"
    proof (cases p)
      case 0
      with pq q show ?thesis by auto
    next
      case (Suc p')
      with pq q have "p' < q' \<and> q' < length xs \<and> a = xs ! p' \<and> b = xs ! q'" by simp
      with Cons.IH have "(a, b) \<in> set (pairs xs)" by blast
      then show ?thesis by simp
    qed
  qed
qed

lemma recorded_recordSame: "recorded (recordSame S i j) = recorded S \<union> {(i, j), (j, i)}"
  unfolding recorded_def recordSame_def
  by (auto simp: Let_def same_at_def split: if_splits option.splits)

lemma joinPrepare_Some:
  assumes "joinPrepare K node i st = Some (inc, l1, a1, st1)"
  shows "inc = (myTo (edges st i) = self node)" "firstSegment K node (edges st) i = Some l1"
    "lookaheadAngle K node (edges st) i = Some a1" "same st1 = same st" "edges st1 = edges st"
  using assms
  by (auto simp: joinPrepare_def firstSegment_def lookaheadAngle_def Let_def
      split: Option.bind_splits)

lemma joinPair_decision:
  assumes "joinPair K node i inc l1 a1 j st = Some st'"
  shows "\<exists>b. sameDirection K node (edges st) i inc l1 a1 j = Some b
             \<and> same st' = (if b then recordSame (same st) i j else same st)"
proof -
  from assms obtain b where d: "sameDirection K node (edges st) i inc l1 a1 j = Some b"
    by (auto simp: joinPair_def Let_def split: Option.bind_splits)
  with assms have "same st' = (if b then recordSame (same st) i j else same st)"
    by (cases b) (auto simp: joinPair_def Let_def split: Option.bind_splits)
  with d show ?thesis by blast
qed

lemma joinInner_recorded:
  assumes "joinInner K node i inc l1 a1 js st = Some st'"
  shows "recorded (same st') = recorded (same st)
           \<union> {(a, b). \<exists>j \<in> set js. sameDirection K node (edges st) i inc l1 a1 j = Some True
                          \<and> ((a, b) = (i, j) \<or> (a, b) = (j, i))}
         \<and> (\<forall>j \<in> set js. sameDirection K node (edges st) i inc l1 a1 j \<noteq> None)"
  using assms
proof (induction js arbitrary: st)
  case Nil
  then show ?case by simp
next
  case (Cons j js)
  from Cons.prems obtain st1 where
    p: "joinPair K node i inc l1 a1 j st = Some st1" and
    r: "joinInner K node i inc l1 a1 js st1 = Some st'"
    by (auto split: option.splits)
  from joinPair_decision [OF p] obtain b where
    d: "sameDirection K node (edges st) i inc l1 a1 j = Some b" and
    s: "same st1 = (if b then recordSame (same st) i j else same st)" by blast
  from joinPair_edges [OF p] have e: "edges st1 = edges st" .
  from Cons.IH [OF r] e
  have 1: "recorded (same st') = recorded (same st1)
             \<union> {(a, b). \<exists>j \<in> set js. sameDirection K node (edges st) i inc l1 a1 j = Some True
                            \<and> ((a, b) = (i, j) \<or> (a, b) = (j, i))}"
    and 2: "\<forall>j \<in> set js. sameDirection K node (edges st) i inc l1 a1 j \<noteq> None"
    by simp_all
  from 1 d s have "recorded (same st') = recorded (same st)
           \<union> {(a, b). \<exists>j \<in> set (j # js). sameDirection K node (edges st) i inc l1 a1 j = Some True
                          \<and> ((a, b) = (i, j) \<or> (a, b) = (j, i))}"
    by (cases b) (auto simp: recorded_recordSame)
  moreover from 2 d have "\<forall>j \<in> set (j # js). sameDirection K node (edges st) i inc l1 a1 j \<noteq> None"
    by simp
  ultimately show ?case by blast
qed

lemma joinOuter_recorded:
  assumes "joinOuter K node es st = Some st'"
  shows "recorded (same st') = recorded (same st)
           \<union> {(a, b). \<exists>(x, y) \<in> set (pairs es). pairDecision K node (edges st) x y = Some True
                          \<and> ((a, b) = (x, y) \<or> (a, b) = (y, x))}
         \<and> (\<forall>(x, y) \<in> set (pairs es). pairDecision K node (edges st) x y \<noteq> None)"
  using assms
proof (induction es arbitrary: st)
  case Nil
  then show ?case by simp
next
  case (Cons i js)
  note prems = Cons.prems and IH = Cons.IH
  show ?case
  proof (cases js)
    case Nil
    with prems show ?thesis by simp
  next
    case (Cons j js')
    with prems obtain inc l1 a1 st1 st2 where
      p: "joinPrepare K node i st = Some (inc, l1, a1, st1)" and
      n: "joinInner K node i inc l1 a1 js st1 = Some st2" and
      o: "joinOuter K node js st2 = Some st'"
      by (auto split: option.splits)
    note pp = joinPrepare_Some [OF p]
    from joinInner_edges [OF n] pp(5) have e2: "edges st2 = edges st" by simp
    have dec: "sameDirection K node (edges st) i inc l1 a1 y = pairDecision K node (edges st) i y"
      for y
      using pp by (simp add: pairDecision_def)
    from joinInner_recorded [OF n] pp(4,5) dec
    have r1: "recorded (same st2) = recorded (same st)
               \<union> {(a, b). \<exists>y \<in> set js. pairDecision K node (edges st) i y = Some True
                          \<and> ((a, b) = (i, y) \<or> (a, b) = (y, i))}"
      and d1: "\<forall>y \<in> set js. pairDecision K node (edges st) i y \<noteq> None" by simp_all
    from IH [OF o] e2
    have r2: "recorded (same st') = recorded (same st2)
               \<union> {(a, b). \<exists>(x, y) \<in> set (pairs js).
                          pairDecision K node (edges st) x y = Some True
                          \<and> ((a, b) = (x, y) \<or> (a, b) = (y, x))}"
      and d2: "\<forall>(x, y) \<in> set (pairs js). pairDecision K node (edges st) x y \<noteq> None"
      by simp_all
    have r: "recorded (same st') = recorded (same st)
           \<union> {(a, b). \<exists>(x, y) \<in> set (pairs (i # js)).
                  pairDecision K node (edges st) x y = Some True
                  \<and> ((a, b) = (x, y) \<or> (a, b) = (y, x))}"
      unfolding pairs_Cons_split r2 r1 by (simp only: Un_assoc)
    from d1 d2 have "\<forall>(x, y) \<in> set (pairs (i # js)). pairDecision K node (edges st) x y \<noteq> None"
      by auto
    with r show ?thesis by blast
  qed
qed

lemma pairDecision_char:
  assumes "pairDecision K node H i j = Some b"
  shows "\<exists>l1 l2 a1 a2.
           firstSegment K node H i = Some l1 \<and> firstSegment K node H j = Some l2
         \<and> lookaheadAngle K node H i = Some a1 \<and> lookaheadAngle K node H j = Some a2
         \<and> (b \<longleftrightarrow>
              \<bar>atan2DegreeAngle K l1 - atan2DegreeAngle K l2\<bar> < 20
              \<and> (differentDirs node H (myTo (H i) = self node) j
                 \<or> (atan2DegreeAngle K l1 - atan2DegreeAngle K l2 > 0 \<and> a1 - a2 < 0)
                 \<or> (atan2DegreeAngle K l1 - atan2DegreeAngle K l2 < 0 \<and> a1 - a2 > 0)
                 \<or> badIntersection K node H i j \<bar>atan2DegreeAngle K l1 - atan2DegreeAngle K l2\<bar>
                      100 (SUMO_const_laneWidth K) = Some True))"
proof -
  from assms obtain l1 a1 g2 l2 a2 where
    f1: "firstSegment K node H i = Some l1" and
    h1: "lookaheadAngle K node H i = Some a1" and
    g2: "sideBoundary K node H j = Some g2" and
    l2: "lineAt g2 0 = Some l2" and
    a2: "angleFurther K g2 l2 = Some a2"
    by (auto simp: pairDecision_def sameDirection_def split: Option.bind_splits)
  from g2 l2 a2 have f2: "firstSegment K node H j = Some l2"
    and h2: "lookaheadAngle K node H j = Some a2"
    by (simp_all add: firstSegment_def lookaheadAngle_def)
  from assms f1 h1 g2 l2 a2
  have "b \<longleftrightarrow>
          \<bar>atan2DegreeAngle K l1 - atan2DegreeAngle K l2\<bar> < 20
          \<and> (differentDirs node H (myTo (H i) = self node) j
             \<or> (atan2DegreeAngle K l1 - atan2DegreeAngle K l2 > 0 \<and> a1 - a2 < 0)
             \<or> (atan2DegreeAngle K l1 - atan2DegreeAngle K l2 < 0 \<and> a1 - a2 > 0)
             \<or> badIntersection K node H i j \<bar>atan2DegreeAngle K l1 - atan2DegreeAngle K l2\<bar>
                  100 (SUMO_const_laneWidth K) = Some True)"
    by (auto simp: pairDecision_def sameDirection_def Let_def split: if_splits)
  with f1 f2 h1 h2 show ?thesis by blast
qed


text \<open>
  C7, as amended. In \<^verbatim>\<open>joinSameDirectionEdges\<close>, run with an empty \<^verbatim>\<open>same\<close> on a node
  whose edge vector holds each edge once, the candidate test on a pair of incident edges
  compares the angles of the \<^emph>\<open>first segments\<close> of their boundaries at the node: the
  pair is recorded in \<^verbatim>\<open>same\<close> (each edge in the list of the other) if and only if the
  absolute difference of these two angles is strictly less than 20 degrees and the
  candidate is confirmed, that is, the two edges run in opposite logical directions, or the
  geometry is ambiguous, or \<^verbatim>\<open>badIntersection\<close> holds. The lookahead angle of an edge (that
  of the second segment, when the boundary has more than two points and its first segment
  is shorter than 35) enters the ambiguity test only: the geometry is ambiguous when the
  difference of the lookahead angles has the sign opposite to that of the difference of the
  first-segment angles.
\<close>

theorem merge_candidates_by_first_segment:
  assumes "joinSameDirectionEdges K node st = Some st'"
    and "same st = Map.empty"
    and "distinct (myAllEdges node)"
    and "p < q" and "q < length (myAllEdges node)"
  shows "\<exists>l1 l2 a1 a2.
           firstSegment K node (edges st) (myAllEdges node ! p) = Some l1
         \<and> firstSegment K node (edges st) (myAllEdges node ! q) = Some l2
         \<and> lookaheadAngle K node (edges st) (myAllEdges node ! p) = Some a1
         \<and> lookaheadAngle K node (edges st) (myAllEdges node ! q) = Some a2
         \<and> (myAllEdges node ! q \<in> set (same_at (same st') (myAllEdges node ! p)) \<longleftrightarrow>
              \<bar>atan2DegreeAngle K l1 - atan2DegreeAngle K l2\<bar> < 20
              \<and> (differentDirs node (edges st)
                    (myTo (edges st (myAllEdges node ! p)) = self node) (myAllEdges node ! q)
                 \<or> (atan2DegreeAngle K l1 - atan2DegreeAngle K l2 > 0 \<and> a1 - a2 < 0)
                 \<or> (atan2DegreeAngle K l1 - atan2DegreeAngle K l2 < 0 \<and> a1 - a2 > 0)
                 \<or> badIntersection K node (edges st) (myAllEdges node ! p) (myAllEdges node ! q)
                      \<bar>atan2DegreeAngle K l1 - atan2DegreeAngle K l2\<bar>
                      100 (SUMO_const_laneWidth K) = Some True))
         \<and> (myAllEdges node ! p \<in> set (same_at (same st') (myAllEdges node ! q)) \<longleftrightarrow>
              myAllEdges node ! q \<in> set (same_at (same st') (myAllEdges node ! p)))"
proof -
  let ?es = "myAllEdges node"
  let ?i = "?es ! p" and ?j = "?es ! q"
  let ?D = "\<lambda>x y. pairDecision K node (edges st) x y"
  from assms(2) have empty: "recorded (same st) = {}"
    by (simp add: recorded_def same_at_def)
  note jo = joinOuter_recorded [OF assms(1) [unfolded joinSameDirectionEdges_def]]
  from jo empty have rec: "recorded (same st')
      = {(a, b). \<exists>(x, y) \<in> set (pairs ?es). ?D x y = Some True
                   \<and> ((a, b) = (x, y) \<or> (a, b) = (y, x))}" by simp
  from jo have total: "\<forall>(x, y) \<in> set (pairs ?es). ?D x y \<noteq> None" by simp
  from assms(4,5) have ij: "(?i, ?j) \<in> set (pairs ?es)"
    unfolding in_pairs by blast
  have ji: "(?j, ?i) \<notin> set (pairs ?es)"
  proof
    assume "(?j, ?i) \<in> set (pairs ?es)"
    then obtain p' q' where pq: "p' < q'" "q' < length ?es" "?j = ?es ! p'" "?i = ?es ! q'"
      unfolding in_pairs by blast
    from pq(1,2) have "p' < length ?es" by simp
    with assms(3,4,5) pq have "q = p'" "p = q'"
      by (simp_all add: nth_eq_iff_index_eq)
    with pq(1) assms(4) show False by simp
  qed
  from total ij obtain d where d: "?D ?i ?j = Some d" by fastforce
  have fwd: "?D ?i ?j = Some True" if "(?i, ?j) \<in> recorded (same st') \<or> (?j, ?i) \<in> recorded (same st')"
  proof -
    from that rec obtain x y where xy: "(x, y) \<in> set (pairs ?es)" "?D x y = Some True"
      "(?i, ?j) = (x, y) \<or> (?i, ?j) = (y, x)" by auto
    from xy(3) ji xy(1) have "x = ?i" "y = ?j" by auto
    with xy(2) show ?thesis by simp
  qed
  have bwd: "(?i, ?j) \<in> recorded (same st') \<and> (?j, ?i) \<in> recorded (same st')"
    if "?D ?i ?j = Some True"
    using that ij rec by auto
  have m: "(?i, ?j) \<in> recorded (same st') \<longleftrightarrow> ?j \<in> set (same_at (same st') ?i)"
    "(?j, ?i) \<in> recorded (same st') \<longleftrightarrow> ?i \<in> set (same_at (same st') ?j)"
    by (simp_all add: recorded_def)
  have r1: "?j \<in> set (same_at (same st') ?i) \<longleftrightarrow> d"
  proof (cases d)
    case True
    with bwd d m show ?thesis by simp
  next
    case False
    with fwd d m show ?thesis by auto
  qed
  have r2: "?i \<in> set (same_at (same st') ?j) \<longleftrightarrow> d"
  proof (cases d)
    case True
    with bwd d m show ?thesis by simp
  next
    case False
    with fwd d m show ?thesis by auto
  qed
  show ?thesis unfolding r1 r2 using pairDecision_char [OF d] by simp
qed


lemmas join_defs = joinSameDirectionEdges_def joinPrepare_def joinPair_def sideBoundary_def
  sameDirection_def differentDirs_def badIntersection_def recordSame_def
  extendStart_def angleFurther_def lineAt_def replaceAt_def hasIncoming_def hasOutgoing_def
  initial_state_def Let_def getGeometry_def same_at_def firstSegment_def lookaheadAngle_def

text \<open>
  \<open>bend\<close>: edge 1 arrives at node 7 from the south after a turn 10 units before the node,
  coming from the west; edge 2 leaves to the west. \<open>twoWay\<close>: edge 1 arrives from the west,
  edge 2 leaves to the west.
\<close>

definition bend :: edge_heap where
  "bend = (\<lambda>e. if e = 1
            then \<lparr>myGeom = [pt (-100) (-10), pt 0 (-10), pt 0 0], myNumLanes = 1, myFrom = 6,
                  myTo = 7, myLaneSpreadFunction = LANESPREAD_CENTER\<rparr>
            else \<lparr>myGeom = [pt 0 0, pt (-100) 0], myNumLanes = 1, myFrom = 7, myTo = 8,
                  myLaneSpreadFunction = LANESPREAD_CENTER\<rparr>)"

definition twoWay :: edge_heap where
  "twoWay = (\<lambda>e. if e = 1
            then \<lparr>myGeom = [pt (-100) 0, pt 0 0], myNumLanes = 1, myFrom = 6,
                  myTo = 7, myLaneSpreadFunction = LANESPREAD_CENTER\<rparr>
            else \<lparr>myGeom = [pt 0 0, pt (-100) 0], myNumLanes = 1, myFrom = 7, myTo = 6,
                  myLaneSpreadFunction = LANESPREAD_CENTER\<rparr>)"

text \<open>
  C7 as stated fails on \<open>bend\<close>. The first segment of edge 1 is 10 units long, so its
  initial direction with lookahead is that of its second segment, 90 degrees, the same as
  that of edge 2: by the claim the pair is a candidate, and as the edges run in opposite
  logical directions it would be recorded. The code compares the first segments (0 and 90
  degrees) and records nothing.
\<close>

theorem lookahead_candidates_counterexample:
  "lookaheadAngle K0 through bend 1 = Some 90
   \<and> lookaheadAngle K0 through bend 2 = Some 90
   \<and> differentDirs through bend (myTo (bend 1) = self through) 2
   \<and> map_option (atan2DegreeAngle K0) (firstSegment K0 through bend 1) = Some 0
   \<and> map_option (atan2DegreeAngle K0) (firstSegment K0 through bend 2) = Some 90
   \<and> map_option same (joinSameDirectionEdges K0 through (initial_state through bend))
       = Some Map.empty"
  by (simp add: join_defs through_def bend_def k_defs)

definition twoWay_merged :: shape_state where
  "twoWay_merged = (initial_state through twoWay)
     \<lparr>same := [1 \<mapsto> [2], 2 \<mapsto> [1]],
      geomsCCW := [1 \<mapsto> [pt 100 (-1.6), pt (-100) (-1.6)], 2 \<mapsto> [pt 100 (-1.6), pt (-100) (-1.6)]],
      geomsCW := [1 \<mapsto> [pt 100 1.6, pt (-100) 1.6], 2 \<mapsto> [pt 100 1.6, pt (-100) 1.6]]\<rparr>"

lemma twoWay_join:
  "joinSameDirectionEdges K0 through (initial_state through twoWay) = Some twoWay_merged"
  by (simp add: twoWay_merged_def join_defs through_def twoWay_def k_defs)

lemma twoWay_first:
  "firstSegment K0 through twoWay 1 = Some \<lparr>p1 = pt 0 (-1.6), p2 = pt (-100) (-1.6)\<rparr>"
  "firstSegment K0 through twoWay 2 = Some \<lparr>p1 = pt 0 1.6, p2 = pt (-100) 1.6\<rparr>"
  by (simp_all add: join_defs through_def twoWay_def k_defs)

text \<open>
  C7, as amended, on \<open>twoWay\<close>: the first segments differ by 0 degrees and the edges run
  in opposite logical directions, so the pair is recorded.
\<close>

theorem merge_candidates_by_first_segment_witness:
  "joinSameDirectionEdges K0 through (initial_state through twoWay) = Some twoWay_merged
   \<and> same (initial_state through twoWay) = Map.empty
   \<and> distinct (myAllEdges through)
   \<and> (0::nat) < 1 \<and> 1 < length (myAllEdges through)
   \<and> firstSegment K0 through twoWay 1 = Some \<lparr>p1 = pt 0 (-1.6), p2 = pt (-100) (-1.6)\<rparr>
   \<and> firstSegment K0 through twoWay 2 = Some \<lparr>p1 = pt 0 1.6, p2 = pt (-100) 1.6\<rparr>
   \<and> \<bar>atan2DegreeAngle K0 \<lparr>p1 = pt 0 (-1.6), p2 = pt (-100) (-1.6)\<rparr>
        - atan2DegreeAngle K0 \<lparr>p1 = pt 0 1.6, p2 = pt (-100) 1.6\<rparr>\<bar> < 20
   \<and> differentDirs through twoWay (myTo (twoWay 1) = self through) 2
   \<and> 2 \<in> set (same_at (same twoWay_merged) 1)
   \<and> 1 \<in> set (same_at (same twoWay_merged) 2)"
proof -
  have e: "same (initial_state through twoWay) = Map.empty" by (simp add: initial_state_def)
  have d: "distinct (myAllEdges through)" by (simp add: through_def)
  have l: "(0::nat) < 1" "1 < length (myAllEdges through)" by (simp_all add: through_def)
  have n: "myAllEdges through ! 0 = 1" "myAllEdges through ! 1 = 2" by (simp_all add: through_def)
  have a: "\<bar>atan2DegreeAngle K0 \<lparr>p1 = pt 0 (-1.6), p2 = pt (-100) (-1.6)\<rparr>
            - atan2DegreeAngle K0 \<lparr>p1 = pt 0 1.6, p2 = pt (-100) 1.6\<rparr>\<bar> < 20"
    by (simp add: k_defs)
  have f: "differentDirs through twoWay (myTo (twoWay 1) = self through) 2"
    by (simp add: differentDirs_def twoWay_def through_def)
  have ed: "edges (initial_state through twoWay) = twoWay" by (simp add: initial_state_def)
  from merge_candidates_by_first_segment [OF twoWay_join e d l, unfolded n ed]
  obtain l1 l2 a1 a2 where
    f1: "firstSegment K0 through twoWay 1 = Some l1" and
    f2: "firstSegment K0 through twoWay 2 = Some l2" and
    h1: "lookaheadAngle K0 through twoWay 1 = Some a1" and
    h2: "lookaheadAngle K0 through twoWay 2 = Some a2" and
    r: "2 \<in> set (same_at (same twoWay_merged) 1) \<longleftrightarrow>
          \<bar>atan2DegreeAngle K0 l1 - atan2DegreeAngle K0 l2\<bar> < 20
          \<and> (differentDirs through twoWay (myTo (twoWay 1) = self through) 2
             \<or> (atan2DegreeAngle K0 l1 - atan2DegreeAngle K0 l2 > 0 \<and> a1 - a2 < 0)
             \<or> (atan2DegreeAngle K0 l1 - atan2DegreeAngle K0 l2 < 0 \<and> a1 - a2 > 0)
             \<or> badIntersection K0 through twoWay 1 2
                  \<bar>atan2DegreeAngle K0 l1 - atan2DegreeAngle K0 l2\<bar>
                  100 (SUMO_const_laneWidth K0) = Some True)" and
    s: "1 \<in> set (same_at (same twoWay_merged) 2) \<longleftrightarrow> 2 \<in> set (same_at (same twoWay_merged) 1)"
    by blast
  from f1 f2 twoWay_first have "l1 = \<lparr>p1 = pt 0 (-1.6), p2 = pt (-100) (-1.6)\<rparr>"
    "l2 = \<lparr>p1 = pt 0 1.6, p2 = pt (-100) 1.6\<rparr>" by simp_all
  with r a f have "2 \<in> set (same_at (same twoWay_merged) 1)" by blast
  with s twoWay_join e d l twoWay_first a f show ?thesis by simp
qed

section \<open>Missing trim distances\<close>

text \<open>
  The second pass guards every read of a trim distance: when the distance of the neighbour
  that an unresolved direction needs is missing, the computation is left.
\<close>

lemma guardedReplace_missing:
  "distances st nb = None
   \<Longrightarrow> guardedReplace K atEnd target decenter counter nb laneDiff st = Some (Aborted st)"
  by (simp add: guardedReplace_def)

lemma trimOwn_missing:
  assumes "distances st
            (if hasIncoming node i
             then (if hasOutgoing node ccw \<and> hasOutgoing node cw then cw else ccw)
             else (if hasIncoming node ccw \<and> hasIncoming node cw then ccw else cw)) = None"
  shows "trimOwn K node i cw ccw laneDiff st = Some (Aborted st)"
  using assms
  by (auto simp: trimOwn_def Let_def guardedReplace_missing split: if_splits)

text \<open>
  The first pass reads with \<^verbatim>\<open>distances[...]\<close>, which yields 0 for a missing key. So a run
  of the first pass is, up to the entries that hold 0, the run from the map in which every
  missing entry holds 0 from the start.
\<close>

definition zeroFilled :: "(NBEdge \<rightharpoonup> real) \<Rightarrow> (NBEdge \<rightharpoonup> real)" where
  "zeroFilled D = (\<lambda>e. Some (case D e of None \<Rightarrow> 0 | Some d \<Rightarrow> d))"

lemma zeroFilled_upd: "zeroFilled (D(i \<mapsto> v)) = (zeroFilled D)(i \<mapsto> v)"
  by (auto simp: zeroFilled_def fun_eq_iff)

lemma dist_at_zeroFilled:
  "dist_at (zeroFilled D) e = (fst (dist_at D e), zeroFilled (snd (dist_at D e)))"
  by (auto simp: dist_at_def zeroFilled_def fun_eq_iff split: option.splits)

lemma dist_at_zeroFilled_upd:
  "dist_at ((zeroFilled D)(i \<mapsto> v)) e
   = (fst (dist_at (D(i \<mapsto> v)) e), zeroFilled (snd (dist_at (D(i \<mapsto> v)) e)))"
  using dist_at_zeroFilled [of "D(i \<mapsto> v)" e] by (simp add: zeroFilled_upd)

lemma trimGeneral_zeroFilled:
  "trimGeneral K sc radius x1 x2 y1 y2 ccad cad i cw ccw (zeroFilled D)
   = map_option zeroFilled (trimGeneral K sc radius x1 x2 y1 y2 ccad cad i cw ccw D)"
  unfolding trimGeneral_def
  by (cases "first_of (intersectsAtLengths2D K x1 x2)";
      cases "first_of (intersectsAtLengths2D K y1 y2)")
     (simp_all add: Let_def case_prod_beta dist_at_zeroFilled dist_at_zeroFilled_upd
        zeroFilled_upd)

lemma initNeighbors_distances:
  "initNeighbors K es n sc (st\<lparr>distances := D\<rparr>) = initNeighbors K es n sc st"
  by (simp add: initNeighbors_def)

lemma trimParallel_zeroFilled:
  "trimParallel K node sc radius i ccw (st\<lparr>distances := zeroFilled (distances st)\<rparr>)
   = map_option (\<lambda>s. s\<lparr>distances := zeroFilled (distances s)\<rparr>)
       (trimParallel K node sc radius i ccw st)"
  unfolding trimParallel_def
  by (auto simp: Let_def zeroFilled_upd split: Option.bind_split)

lemma pass1Step_zeroFilled:
  "pass1Step K node sc radius newAll n (st\<lparr>distances := zeroFilled (distances st)\<rparr>)
   = map_option (\<lambda>s. s\<lparr>distances := zeroFilled (distances s)\<rparr>)
       (pass1Step K node sc radius newAll n st)"
proof (cases "initNeighbors K newAll n sc st")
  case None
  then show ?thesis by (simp add: pass1Step_def initNeighbors_distances)
next
  case (Some nb)
  obtain cwi ccwi cad ccad where nb: "nb = (cwi, ccwi, cad, ccad)" by (cases nb) auto
  show ?thesis
    unfolding pass1Step_def initNeighbors_distances Some nb
    by (cases "trimGeneral K sc radius
                 (geom_at (geomsCCW st) (newAll ! n)) (geom_at (geomsCW st) (newAll ! ccwi))
                 (geom_at (geomsCW st) (newAll ! n)) (geom_at (geomsCCW st) (newAll ! cwi))
                 ccad cad (newAll ! n) (newAll ! cwi) (newAll ! ccwi) (distances st)";
        cases "trimGeneral K sc radius
                 (geom_at (geomsCW st) (newAll ! n)) (geom_at (geomsCCW st) (newAll ! cwi))
                 (geom_at (geomsCCW st) (newAll ! n)) (geom_at (geomsCW st) (newAll ! ccwi))
                 ccad cad (newAll ! n) (newAll ! cwi) (newAll ! ccwi) (distances st)")
       (auto simp: Let_def trimParallel_zeroFilled trimGeneral_zeroFilled)
qed

lemma pass1Loop_zeroFilled:
  "pass1Loop K node sc radius newAll ns (st\<lparr>distances := zeroFilled (distances st)\<rparr>)
   = map_option (\<lambda>s. s\<lparr>distances := zeroFilled (distances s)\<rparr>)
       (pass1Loop K node sc radius newAll ns st)"
proof (induction ns arbitrary: st)
  case Nil
  show ?case by simp
next
  case (Cons n ns)
  show ?case
    by (cases "pass1Step K node sc radius newAll n st")
       (simp_all add: pass1Step_zeroFilled Cons.IH)
qed

text \<open>
  C5, as amended. A missing entry of the distances map never makes
  \<^verbatim>\<open>computeNodeShapeDefault\<close> leave early. Whenever it returns for a node with at least two
  incident edges whose merge leaves at least two directions, (1) the first pass has run
  over every direction, and it is the run that the map with 0 in every missing entry
  gives, up to such entries: a trim distance that is missing when the first pass needs it
  is read as 0; (2) after the first pass every direction has a trim distance; (3) the
  second pass finds every direction resolved, takes none of its returns of the empty
  polygon and changes nothing; (4) the polygon returned is the one built from that state,
  with the edges as the first pass left them, so never a partially trimmed one.
\<close>

theorem default_passes_missing_distances:
  assumes "computeNodeShapeDefault K node H sc = Some (ret, H')"
    and "joinSameDirectionEdges K node (initial_state node H) = Some st"
    and "computeUniqueDirectionList K node st = Some (newAll, st1)"
    and "\<not> length (myAllEdges node) < 2" and "\<not> length newAll < 2"
  shows "\<exists>st2.
           pass1 K node sc (if myRadius node = UNSPECIFIED_RADIUS K then DEFAULT_RADIUS K
                            else myRadius node) newAll st1 = Some st2
         \<and> pass1 K node sc (if myRadius node = UNSPECIFIED_RADIUS K then DEFAULT_RADIUS K
                            else myRadius node) newAll
               (st1\<lparr>distances := zeroFilled (distances st1)\<rparr>)
             = Some (st2\<lparr>distances := zeroFilled (distances st2)\<rparr>)
         \<and> (\<forall>n<length newAll. distances st2 (newAll ! n) \<noteq> None)
         \<and> pass2 K node sc newAll st2 = Some (Resolved st2)
         \<and> build K node (cornerDetailOption K) newAll st2 = Some ret
         \<and> H' = edges st2"
  using assms(1)
proof (cases rule: computeNodeShapeDefault_cases)
  case few_edges
  with assms(4) show ?thesis by simp
next
  case (few_directions s nA s1)
  with assms(2,3,5) show ?thesis by simp
next
  case (built s nA s1 st2)
  let ?r = "if myRadius node = UNSPECIFIED_RADIUS K then DEFAULT_RADIUS K else myRadius node"
  from built(2,3) assms(2,3) have eq: "nA = newAll" "s1 = st1" by simp_all
  from built(5) eq have p: "pass1 K node sc ?r newAll st1 = Some st2" by simp
  from p have z: "pass1 K node sc ?r newAll (st1\<lparr>distances := zeroFilled (distances st1)\<rparr>)
                  = Some (st2\<lparr>distances := zeroFilled (distances st2)\<rparr>)"
    by (simp add: pass1_def pass1Loop_zeroFilled)
  from built(6,7) eq have b: "build K node (cornerDetailOption K) newAll st2 = Some ret"
    "H' = edges st2" by simp_all
  from p z pass1_resolves(1) [OF p] pass2_after_pass1 [OF p] b show ?thesis by blast
qed

subsection \<open>A junction of three roads\<close>

text \<open>
  A kernel given by tables, for a junction of three roads that leave node 7 at about 0, 144
  and 216 degrees: the boundaries of an edge are its centerline, the angle of a segment is
  read off its far end, any two boundaries intersect 10 units from the start, and a position
  on a polyline is interpolated between its ends, which are 100 units apart.
\<close>

definition heading :: "Position \<Rightarrow> real" where
  "heading p = (if p = pt 100 0 then 0 else if p = pt (-80) 60 then 144 else 216)"

definition centerline :: "EdgeData \<Rightarrow> NBNode \<Rightarrow> PositionVector option" where
  "centerline ed n = Some (if myTo ed = self n then rev (myGeom ed) else myGeom ed)"

definition between :: "PositionVector \<Rightarrow> real \<Rightarrow> Position" where
  "between v pos =
     \<lparr>px = px (hd v) + pos / 100 * (px (last v) - px (hd v)),
      py = py (hd v) + pos / 100 * (py (last v) - py (hd v)),
      pz = pz (hd v) + pos / 100 * (pz (last v) - pz (hd v))\<rparr>"

definition K5 :: kernel where
  "K5 = K0\<lparr>getCCWBoundaryLine := centerline,
            getCWBoundaryLine := centerline,
            extrapolateBy2D := (\<lambda>l len. l),
            extrapolate := (\<lambda>v len. v),
            atan2DegreeAngle := (\<lambda>l. heading (p2 l)),
            atan2PositiveAngle := (\<lambda>l. heading (p2 l) * pi / 180),
            intersects := (\<lambda>v w. True),
            intersectsAtLengths2D := (\<lambda>v w. [10]),
            positionAtOffset2D := between,
            pv_length := (\<lambda>v. 100)\<rparr>"

definition yroads :: edge_heap where
  "yroads = (\<lambda>e. \<lparr>myGeom = [pt 0 0, if e = 1 then pt 100 0 else if e = 2 then pt (-80) 60
                                       else pt (-80) (-60)],
                   myNumLanes = 1, myFrom = 7, myTo = 8,
                   myLaneSpreadFunction = LANESPREAD_CENTER\<rparr>)"

definition junction :: NBNode where
  "junction = \<lparr>self = 7, myAllEdges = [1, 2, 3], myIncomingEdges = [],
               myOutgoingEdges = [1, 2, 3], myPosition = pt 0 0, myRadius = -1\<rparr>"

lemmas k5_defs = K5_def K0_def heading_def centerline_def between_def pt_def

text \<open>The state after the direction merge (nothing merges), and after the first pass.\<close>

definition yroads_merged :: shape_state where
  "yroads_merged = (initial_state junction yroads)
     \<lparr>geomsCCW := [1 \<mapsto> [pt 0 0, pt 100 0], 2 \<mapsto> [pt 0 0, pt (-80) 60],
                   3 \<mapsto> [pt 0 0, pt (-80) (-60)]],
      geomsCW := [1 \<mapsto> [pt 0 0, pt 100 0], 2 \<mapsto> [pt 0 0, pt (-80) 60],
                  3 \<mapsto> [pt 0 0, pt (-80) (-60)]]\<rparr>"

definition yroads_trimmed :: shape_state where
  "yroads_trimmed = yroads_merged\<lparr>distances := [1 \<mapsto> 11.5, 2 \<mapsto> 11.5, 3 \<mapsto> 11.5]\<rparr>"

lemma yroads_join:
  "joinSameDirectionEdges K5 junction (initial_state junction yroads) = Some yroads_merged"
  by (simp add: yroads_merged_def join_defs junction_def yroads_def k5_defs)

lemma yroads_unique:
  "computeUniqueDirectionList K5 junction yroads_merged = Some ([1, 2, 3], yroads_merged)"
  unfolding computeUniqueDirectionList_def
  by (simp add: uniqWhile_noop fullyMerged_def yroads_merged_def initial_state_def same_at_def
      junction_def)

lemma yroads_init:
  "initNeighbors K5 [1, 2, 3] 0 False yroads_merged = Some (1, 2, 4 * pi / 5, 4 * pi / 5)"
  by (simp add: yroads_merged_def run_defs junction_def yroads_def k5_defs)

lemma yroads_step0:
  "pass1Step K5 junction False 1.5 [1, 2, 3] 0 yroads_merged
   = Some (yroads_merged\<lparr>distances := [1 \<mapsto> 11.5, 2 \<mapsto> 0, 3 \<mapsto> 0]\<rparr>)"
  by (simp add: yroads_merged_def run_defs junction_def yroads_def k5_defs)

lemma yroads_pass1:
  "pass1 K5 junction False
     (if myRadius junction = UNSPECIFIED_RADIUS K5 then DEFAULT_RADIUS K5 else myRadius junction)
     [1, 2, 3] yroads_merged = Some yroads_trimmed"
  by (simp add: yroads_trimmed_def yroads_merged_def run_defs junction_def yroads_def k5_defs
      upt_rec)

lemma yroads_build:
  "build K5 junction (cornerDetailOption K5) [1, 2, 3] yroads_trimmed
   = Some [pt 11.5 0, pt (-9.2) 6.9, pt (-9.2) (-6.9)]"
  by (simp add: yroads_trimmed_def yroads_merged_def run_defs junction_def yroads_def k5_defs
      upt_rec)

lemma yroads_default:
  "computeNodeShapeDefault K5 junction yroads False
   = Some ([pt 11.5 0, pt (-9.2) 6.9, pt (-9.2) (-6.9)], yroads)"
proof -
  have "computeNodeShapeDefault K5 junction yroads False
        = Some ([pt 11.5 0, pt (-9.2) 6.9, pt (-9.2) (-6.9)], edges yroads_trimmed)"
    by (rule computeNodeShapeDefault_run [OF _ yroads_join yroads_unique _ yroads_pass1 yroads_build])
       (simp_all add: junction_def)
  then show ?thesis by (simp add: yroads_trimmed_def yroads_merged_def initial_state_def)
qed

text \<open>
  C5 as stated fails in the first pass. At the junction of three roads the first
  direction has both neighbours more than 135 degrees away and both boundary intersections
  exist, so the pass needs the trim distances of directions 2 and 3, which are not in the
  map yet. It reads them as 0 (inserting them) and goes on; \<^verbatim>\<open>computeNodeShapeDefault\<close>
  returns a polygon of three points, not the empty one.
\<close>

theorem first_pass_missing_neighbour_counterexample:
  "distances yroads_merged 2 = None \<and> distances yroads_merged 3 = None
   \<and> pass1Step K5 junction False 1.5 [1, 2, 3] 0 yroads_merged
       = Some (yroads_merged\<lparr>distances := [1 \<mapsto> 11.5, 2 \<mapsto> 0, 3 \<mapsto> 0]\<rparr>)
   \<and> computeNodeShapeDefault K5 junction yroads False
       = Some ([pt 11.5 0, pt (-9.2) 6.9, pt (-9.2) (-6.9)], yroads)"
  using yroads_step0 yroads_default
  by (simp add: yroads_merged_def initial_state_def)

text \<open>
  C5, as amended, on the same junction: the first pass resolves the three directions, the
  second pass changes nothing and the polygon has three points.
\<close>

theorem default_passes_missing_distances_witness:
  "computeNodeShapeDefault K5 junction yroads False
     = Some ([pt 11.5 0, pt (-9.2) 6.9, pt (-9.2) (-6.9)], yroads)
   \<and> joinSameDirectionEdges K5 junction (initial_state junction yroads) = Some yroads_merged
   \<and> computeUniqueDirectionList K5 junction yroads_merged = Some ([1, 2, 3], yroads_merged)
   \<and> \<not> length (myAllEdges junction) < 2 \<and> \<not> length [1, 2, 3 :: nat] < 2
   \<and> pass1 K5 junction False 1.5 [1, 2, 3] yroads_merged = Some yroads_trimmed
   \<and> pass1 K5 junction False 1.5 [1, 2, 3]
         (yroads_merged\<lparr>distances := zeroFilled (distances yroads_merged)\<rparr>)
       = Some (yroads_trimmed\<lparr>distances := zeroFilled (distances yroads_trimmed)\<rparr>)
   \<and> distances yroads_trimmed 1 \<noteq> None \<and> distances yroads_trimmed 2 \<noteq> None
   \<and> distances yroads_trimmed 3 \<noteq> None
   \<and> pass2 K5 junction False [1, 2, 3] yroads_trimmed = Some (Resolved yroads_trimmed)
   \<and> build K5 junction 0 [1, 2, 3] yroads_trimmed
       = Some [pt 11.5 0, pt (-9.2) 6.9, pt (-9.2) (-6.9)]"
proof -
  have e: "\<not> length (myAllEdges junction) < 2" by (simp add: junction_def)
  have n: "\<not> length [1, 2, 3 :: nat] < 2" by simp
  have r: "(if myRadius junction = UNSPECIFIED_RADIUS K5 then DEFAULT_RADIUS K5
            else myRadius junction) = 1.5" by (simp add: junction_def K5_def K0_def)
  have c: "cornerDetailOption K5 = 0" by (simp add: K5_def K0_def)
  from default_passes_missing_distances [OF yroads_default yroads_join yroads_unique e n]
  obtain st2 where
    p: "pass1 K5 junction False 1.5 [1, 2, 3] yroads_merged = Some st2" and
    z: "pass1 K5 junction False 1.5 [1, 2, 3]
          (yroads_merged\<lparr>distances := zeroFilled (distances yroads_merged)\<rparr>)
        = Some (st2\<lparr>distances := zeroFilled (distances st2)\<rparr>)" and
    d: "\<forall>n<length [1, 2, 3 :: nat]. distances st2 ([1, 2, 3] ! n) \<noteq> None" and
    q: "pass2 K5 junction False [1, 2, 3] st2 = Some (Resolved st2)" and
    b: "build K5 junction 0 [1, 2, 3] st2 = Some [pt 11.5 0, pt (-9.2) 6.9, pt (-9.2) (-6.9)]"
    unfolding r c by blast
  from yroads_pass1 [unfolded r] p have s: "st2 = yroads_trimmed" by simp
  from d [rule_format, of 0] have d1: "distances st2 1 \<noteq> None" by simp
  from d [rule_format, of 1] have d2: "distances st2 2 \<noteq> None" by simp
  from d [rule_format, of 2] have d3: "distances st2 3 \<noteq> None" by simp
  note d' = d1 d2 d3
  from yroads_default yroads_join yroads_unique e n p z d' q b show ?thesis
    unfolding s by simp
qed

end
